theory Spec2Isabelle
  imports Main "HOL-Library.Word" "HOL-Library.AList"
begin

unbundle bit_operations_syntax

section \<open>Python values\<close>

text \<open>
  A Python \<open>str\<close> is a sequence of Unicode code points; lone surrogates
  (U+D800 .. U+DFFF) are legal elements of a \<open>str\<close> (file names decoded with
  \<open>surrogateescape\<close> contain them). A \<open>bytes\<close> object is a list of octets.
  ASCII literals of the source are written \<open>lit ''...''\<close>.
\<close>

type_synonym pystr = "nat list"
type_synonym bytes = "8 word list"

definition lit :: "string \<Rightarrow> pystr" where
  "lit s = map of_char s"

text \<open>The exceptions (subclasses of \<open>Exception\<close>) that the modelled code can see.\<close>

datatype exn =
    FileNotFoundError
  | FileExistsError
  | UnicodeEncodeError
  | TypeError
  | OSError string
  | LibError string

subsection \<open>\<open>str.encode("utf-8")\<close>\<close>

text \<open>
  The strict UTF-8 encoder of Python: one to four octets per code point, and
  \<open>UnicodeEncodeError\<close> on a surrogate code point. The code points of a Python
  \<open>str\<close> are below \<open>0x110000\<close>.
\<close>

definition is_surrogate :: "nat \<Rightarrow> bool" where
  "is_surrogate c = (0xD800 \<le> c \<and> c \<le> 0xDFFF)"

definition utf8_cp :: "nat \<Rightarrow> bytes" where
  "utf8_cp c =
     (if c < 0x80 then [of_nat c]
      else if c < 0x800 then [of_nat (0xC0 + c div 64), of_nat (0x80 + c mod 64)]
      else if c < 0x10000 then
        [of_nat (0xE0 + c div 4096), of_nat (0x80 + (c div 64) mod 64), of_nat (0x80 + c mod 64)]
      else
        [of_nat (0xF0 + c div 262144), of_nat (0x80 + (c div 4096) mod 64),
         of_nat (0x80 + (c div 64) mod 64), of_nat (0x80 + c mod 64)])"

fun encode_utf8 :: "pystr \<Rightarrow> exn + bytes" where
  "encode_utf8 [] = Inr []"
| "encode_utf8 (c # cs) =
     (if is_surrogate c then Inl UnicodeEncodeError
      else (case encode_utf8 cs of Inl e \<Rightarrow> Inl e | Inr bs \<Rightarrow> Inr (utf8_cp c @ bs)))"

text \<open>The UTF-8 octets of a string: the octets of its code points, one after the other.\<close>

definition utf8_bytes :: "pystr \<Rightarrow> bytes" where
  "utf8_bytes s = concat (map utf8_cp s)"

subsection \<open>\<open>zlib.crc32\<close>\<close>

text \<open>
  The library function \<open>zlib.crc32\<close> (CRC-32 of ISO 3309, reflected polynomial
  \<open>0xEDB88320\<close>, initial value and final complement \<open>0xFFFFFFFF\<close>), bit by bit.
  Python 3 returns it as an unsigned integer below \<open>2 ^ 32\<close>.
\<close>

definition crc32_shift :: "32 word \<Rightarrow> 32 word" where
  "crc32_shift c = (if bit c 0 then drop_bit 1 c XOR 0xEDB88320 else drop_bit 1 c)"

definition crc32_byte :: "32 word \<Rightarrow> 8 word \<Rightarrow> 32 word" where
  "crc32_byte c b = (crc32_shift ^^ 8) (c XOR ucast b)"

definition zlib_crc32 :: "bytes \<Rightarrow> 32 word" where
  "zlib_crc32 bs = foldl crc32_byte 0xFFFFFFFF bs XOR 0xFFFFFFFF"

subsection \<open>\<open>str(int)\<close>\<close>

fun str_nat :: "nat \<Rightarrow> pystr" where
  "str_nat n = (if n < 10 then [48 + n] else str_nat (n div 10) @ [48 + n mod 10])"

declare str_nat.simps [simp del]

definition py_str_int :: "int \<Rightarrow> pystr" where
  "py_str_int i = (if i < 0 then 45 # str_nat (nat (- i)) else str_nat (nat i))"

text \<open>Reading a decimal numeral back (\<open>int(s)\<close> on a string of digits).\<close>

definition is_digit :: "nat \<Rightarrow> bool" where
  "is_digit c = (48 \<le> c \<and> c \<le> 57)"

definition nat_of_digits :: "pystr \<Rightarrow> nat" where
  "nat_of_digits s = foldl (\<lambda>a c. 10 * a + (c - 48)) 0 s"

section \<open>Identifier generator\<close>

text \<open>
  \<^verbatim>\<open>
  def generate_appid(game_name: str, exe_path: str) -> str:
      unique = (exe_path + game_name).encode("utf-8")
      legacy_id = zlib.crc32(unique) | 0x80000000
      return str(legacy_id)
  \<close>
\<close>

definition generate_appid :: "pystr \<Rightarrow> pystr \<Rightarrow> exn + pystr" where
  "generate_appid game_name exe_path =
     (case encode_utf8 (exe_path @ game_name) of
        Inl e \<Rightarrow> Inl e
      | Inr unique \<Rightarrow>
          (let legacy_id = uint (zlib_crc32 unique OR 0x80000000)
           in Inr (py_str_int legacy_id)))"

section \<open>Catalogue documents\<close>

text \<open>
  What \<open>vdf.binary_load\<close> returns and \<open>vdf.binary_dump\<close> accepts: a \<open>dict\<close> from
  strings to strings, integers and nested dicts. A Python \<open>dict\<close> keeps its keys
  distinct and in insertion order, so it is an association list; \<open>d[k] = v\<close> replaces
  the value in place when \<open>k\<close> is present and appends the pair otherwise, which is
  \<^const>\<open>AList.update\<close>.
\<close>

datatype pyval = VStr pystr | VInt int | VDict "(pystr \<times> pyval) list"

type_synonym pydict = "(pystr \<times> pyval) list"

definition dict_keys :: "pydict \<Rightarrow> pystr list" where
  "dict_keys d = map fst d"

definition dict_get :: "pydict \<Rightarrow> pystr \<Rightarrow> pyval \<Rightarrow> pyval" where
  "dict_get d k dflt = (case map_of d k of None \<Rightarrow> dflt | Some v \<Rightarrow> v)"

definition dict_setdefault :: "pydict \<Rightarrow> pystr \<Rightarrow> pyval \<Rightarrow> pydict \<times> pyval" where
  "dict_setdefault d k dflt =
     (case map_of d k of None \<Rightarrow> (d @ [(k, dflt)], dflt) | Some v \<Rightarrow> (d, v))"

text \<open>\<open>len(x)\<close>: defined on strings and dicts, \<open>TypeError\<close> on an integer.\<close>

fun py_len :: "pyval \<Rightarrow> exn + nat" where
  "py_len (VStr s) = Inr (length s)"
| "py_len (VInt i) = Inl TypeError"
| "py_len (VDict d) = Inr (length d)"

text \<open>\<open>x[k] = v\<close>: defined on dicts, \<open>TypeError\<close> on a string or an integer.\<close>

fun py_setitem :: "pyval \<Rightarrow> pystr \<Rightarrow> pyval \<Rightarrow> exn + pyval" where
  "py_setitem (VDict d) k v = Inr (VDict (AList.update k v d))"
| "py_setitem (VStr s) k v = Inl TypeError"
| "py_setitem (VInt i) k v = Inl TypeError"

text \<open>
  The insertion step of \<open>add_non_steam_game\<close>:
  \<^verbatim>\<open>
  idx = len(shortcuts.get("shortcuts", {}))
  shortcuts.setdefault("shortcuts", {})[str(idx)] = entry
  \<close>
  \<open>setdefault\<close> returns the inner dict object itself, so the assignment is seen
  through \<open>shortcuts\<close>; the model writes the updated inner dict back under the key.
  The result is the updated document and the key given to the entry.
\<close>

definition insert_entry :: "pydict \<Rightarrow> pyval \<Rightarrow> exn + (pydict \<times> pystr)" where
  "insert_entry shortcuts entry =
     (case py_len (dict_get shortcuts (lit ''shortcuts'') (VDict [])) of
        Inl e \<Rightarrow> Inl e
      | Inr idx \<Rightarrow>
          (case dict_setdefault shortcuts (lit ''shortcuts'') (VDict []) of
             (shortcuts', inner) \<Rightarrow>
               (case py_setitem inner (py_str_int (int idx)) entry of
                  Inl e \<Rightarrow> Inl e
                | Inr inner' \<Rightarrow>
                    Inr (AList.update (lit ''shortcuts'') inner' shortcuts',
                         py_str_int (int idx)))))"

text \<open>Inserting a list of entries one after the other, stopping at the first exception.\<close>

fun insert_entries :: "pydict \<Rightarrow> pyval list \<Rightarrow> exn + (pydict \<times> pystr list)" where
  "insert_entries d [] = Inr (d, [])"
| "insert_entries d (e # es) =
     (case insert_entry d e of
        Inl x \<Rightarrow> Inl x
      | Inr (d', k) \<Rightarrow>
          (case insert_entries d' es of
             Inl x \<Rightarrow> Inl x
           | Inr (d'', ks) \<Rightarrow> Inr (d'', k # ks)))"

section \<open>Files, log and environment\<close>

text \<open>
  A \<open>pathlib.Path\<close> is the list of its components; \<open>p.parent\<close> drops the last
  one, \<open>p.name\<close> is the last one and \<open>p / c\<close> adds the component \<open>c\<close>
  (a single, non-empty component: a user directory name, a file name).
\<close>

type_synonym path = "pystr list"

definition path_parent :: "path \<Rightarrow> path" where
  "path_parent p = butlast p"

definition path_name :: "path \<Rightarrow> pystr" where
  "path_name p = (if p = [] then [] else last p)"

definition path_join :: "path \<Rightarrow> pystr \<Rightarrow> path" where
  "path_join p c = p @ [c]"

text \<open>
  Every call of the file system that the source makes can raise (no permission, disk
  full, a file where a directory is expected, a file held open by another process, a
  name too long for \<open>stat\<close>). The environment decides which call raises what:
  \<open>fs_fault env op = Some e\<close>. \<open>Exists p\<close> is the call \<open>p.exists()\<close>, which
  answers from \<open>files\<close> when it does not raise.
\<close>

datatype fs_op =
    Exists path
  | Mkdir path
  | Copy2 path path
  | MkTemp path
  | OpenWrite path
  | OpenRead path
  | Unlink path
  | Replace path path

datatype log_level = DEBUG | INFO | WARNING | ERROR

text \<open>The log records of the source, one constructor per \<open>logger\<close> call modelled.\<close>

datatype log_msg =
    BackupCreated path
  | BackupFailed exn
  | AtomicWriteDone path
  | VdfNotFound
  | VdfLoadFailed path exn
  | DumpTypeError exn
  | DumpFailed exn
  | DumpFailedBoth exn
  | VdfWritten path
  | GameIdFound int
  | GameIdMissing
  | UserCancelled
  | StoppingSteam string
  | StartingSteam string
  | SteamRestarted string
  | GameAdded pystr pystr pystr

text \<open>What the processes started by the source and its pauses look like from outside.\<close>

datatype proc_event =
    Run "string list"
  | Popen "string list" bool
  | Sleep nat
  | Input

record proc_result =
  returncode :: int
  stdout_lower :: string

record world =
  files :: "path \<rightharpoonup> bytes"
  log :: "(log_level \<times> log_msg) list"
  procs :: "proc_event list"

text \<open>
  The environment: the outcome of every library and operating-system call whose result
  the source does not determine. \<open>stdout_lower\<close> is the captured standard output after
  \<open>.lower()\<close>; \<open>input_answer\<close> is the line typed after \<open>.strip().lower()\<close>;
  \<open>tmp_names\<close> are the names \<open>tempfile\<close> tries in turn; \<open>strftime\<close> is
  \<open>time.strftime("%Y%m%d-%H%M%S")\<close>; \<open>vdf_dump_swapped\<close> is the call
  \<open>vdf.binary_dump(fp, obj)\<close> and \<open>vdf_dump\<close> the call \<open>vdf.binary_dump(obj, fp)\<close>,
  each giving the octets that reached \<open>fp\<close> and the exception raised, if any;
  \<open>expanduser\<close>, \<open>exe_exists\<close> and \<open>parent_str\<close> are
  \<open>str(Path(s).expanduser())\<close>, \<open>Path(s).exists()\<close> and \<open>str(Path(s).parent)\<close>
  on the executable, the first two of which can raise (\<open>RuntimeError\<close> for an unknown
  home directory, \<open>OSError\<close> from \<open>stat\<close>); \<open>path_exists\<close> is
  \<open>Path(s).exists()\<close> on an installation path of the client and can raise likewise; \<open>search_game\<close> and \<open>save_images\<close> are the two calls to the
  artwork service, with the exception they let through, if any.
\<close>

record env =
  fs_fault :: "fs_op \<Rightarrow> exn option"
  strftime :: pystr
  tmp_names :: "pystr list"
  vdf_binary_load :: "bytes \<Rightarrow> exn + pydict"
  vdf_dump_swapped :: "pydict \<Rightarrow> bytes \<times> exn option"
  vdf_dump :: "pydict \<Rightarrow> bytes \<times> exn option"
  platform_system_lower :: string
  which :: "string \<Rightarrow> string option"
  home_steam_sh :: "exn + string"
  path_exists :: "string \<Rightarrow> exn + bool"
  run_proc :: "string list \<Rightarrow> exn + proc_result"
  popen :: "string list \<Rightarrow> bool \<Rightarrow> exn option"
  stdin_isatty :: bool
  input_answer :: "exn + string"
  expanduser :: "pystr \<Rightarrow> exn + pystr"
  exe_exists :: "pystr \<Rightarrow> exn + bool"
  parent_str :: "pystr \<Rightarrow> pystr"
  search_game :: "pystr \<Rightarrow> exn + int option"
  save_images :: "pystr \<Rightarrow> int \<Rightarrow> pystr \<Rightarrow> exn option"

definition add_log :: "log_level \<Rightarrow> log_msg \<Rightarrow> world \<Rightarrow> world" where
  "add_log l m w = w\<lparr>log := log w @ [(l, m)]\<rparr>"

definition add_proc :: "proc_event \<Rightarrow> world \<Rightarrow> world" where
  "add_proc ev w = w\<lparr>procs := procs w @ [ev]\<rparr>"

section \<open>Atomic persistence writer\<close>

definition BACKUP_DIRNAME :: pystr where
  "BACKUP_DIRNAME = lit ''backups_shortcuts''"

definition backup_path_of :: "env \<Rightarrow> path \<Rightarrow> path" where
  "backup_path_of env p =
     path_join (path_join (path_parent p) BACKUP_DIRNAME)
       (path_name p @ lit ''.bak.'' @ strftime env)"

text \<open>
  \<open>tempfile.NamedTemporaryFile(dir=d, delete=False)\<close>: creates an empty file under the
  first candidate name that is free, \<open>FileExistsError\<close> when none is.
\<close>

definition named_temporary_file :: "env \<Rightarrow> path \<Rightarrow> world \<Rightarrow> world \<times> (exn + path)" where
  "named_temporary_file env d w =
     (case fs_fault env (MkTemp d) of
        Some e \<Rightarrow> (w, Inl e)
      | None \<Rightarrow>
          (case filter (\<lambda>n. files w (path_join d n) = None) (tmp_names env) of
             [] \<Rightarrow> (w, Inl FileExistsError)
           | n # _ \<Rightarrow>
               (w\<lparr>files := (files w)(path_join d n \<mapsto> [])\<rparr>, Inr (path_join d n))))"

text \<open>
  The callable handed to the writer is modelled by what one call of it does: the log
  records it emits, the octets it writes to the file object, and the exception it
  raises, if any.
\<close>

type_synonym write_callable = "(log_level \<times> log_msg) list \<times> bytes \<times> exn option"

text \<open>
  \<^verbatim>\<open>
  def atomic_write_file_with_vdf(path: Path, write_callable):
      path.parent.mkdir(parents=True, exist_ok=True)
      if path.exists():
          backup_dir = path.parent / BACKUP_DIRNAME
          backup_dir.mkdir(parents=True, exist_ok=True)
          timestamp = time.strftime("%Y%m%d-%H%M%S")
          backup_path = backup_dir / f"{path.name}.bak.{timestamp}"
          try:
              shutil.copy2(path, backup_path)
              logger.info(..., backup_path)
          except Exception as e:
              logger.warning(..., e)
      with tempfile.NamedTemporaryFile(dir=str(path.parent), delete=False) as tf:
          tmp_path = Path(tf.name)
      try:
          with tmp_path.open("wb") as f:
              write_callable(f)
      except Exception as e:
          try:
              tmp_path.unlink(missing_ok=True)
          except Exception:
              pass
          raise
      tmp_path.replace(path)
      logger.debug(..., path)
  \<close>
  The three blocks are \<open>backup_existing\<close>, \<open>write_tmp\<close> and the final replace.
\<close>

definition backup_existing :: "env \<Rightarrow> path \<Rightarrow> world \<Rightarrow> world \<times> (exn + unit)" where
  "backup_existing env p w =
     (case fs_fault env (Exists p) of
        Some e \<Rightarrow> (w, Inl e)
      | None \<Rightarrow>
     (case files w p of
        None \<Rightarrow> (w, Inr ())
      | Some content \<Rightarrow>
          (case fs_fault env (Mkdir (path_join (path_parent p) BACKUP_DIRNAME)) of
             Some e \<Rightarrow> (w, Inl e)
           | None \<Rightarrow>
               (case fs_fault env (Copy2 p (backup_path_of env p)) of
                  None \<Rightarrow>
                    (add_log INFO (BackupCreated (backup_path_of env p))
                       (w\<lparr>files := (files w)(backup_path_of env p \<mapsto> content)\<rparr>), Inr ())
                | Some e \<Rightarrow> (add_log WARNING (BackupFailed e) w, Inr ())))))"

definition unlink_quietly :: "env \<Rightarrow> path \<Rightarrow> world \<Rightarrow> world" where
  "unlink_quietly env t w =
     (case fs_fault env (Unlink t) of
        Some e \<Rightarrow> w
      | None \<Rightarrow> w\<lparr>files := (files w)(t := None)\<rparr>)"

definition write_tmp :: "env \<Rightarrow> path \<Rightarrow> write_callable \<Rightarrow> world \<Rightarrow> world \<times> (exn + unit)" where
  "write_tmp env t wc w =
     (case fs_fault env (OpenWrite t) of
        Some e \<Rightarrow> (unlink_quietly env t w, Inl e)
      | None \<Rightarrow>
          (case wc of
             (logs, written, raised) \<Rightarrow>
               (let w1 = w\<lparr>files := (files w)(t \<mapsto> written), log := log w @ logs\<rparr>
                in (case raised of
                      Some e \<Rightarrow> (unlink_quietly env t w1, Inl e)
                    | None \<Rightarrow> (w1, Inr ())))))"

definition replace_file :: "env \<Rightarrow> path \<Rightarrow> path \<Rightarrow> world \<Rightarrow> world \<times> (exn + unit)" where
  "replace_file env t p w =
     (case fs_fault env (Replace t p) of
        Some e \<Rightarrow> (w, Inl e)
      | None \<Rightarrow> (w\<lparr>files := ((files w)(t := None))(p := files w t)\<rparr>, Inr ()))"

definition atomic_write_file_with_vdf ::
  "env \<Rightarrow> path \<Rightarrow> write_callable \<Rightarrow> world \<Rightarrow> world \<times> (exn + unit)" where
  "atomic_write_file_with_vdf env p wc w =
     (case fs_fault env (Mkdir (path_parent p)) of
        Some e \<Rightarrow> (w, Inl e)
      | None \<Rightarrow>
          (case backup_existing env p w of
             (w1, Inl e) \<Rightarrow> (w1, Inl e)
           | (w1, Inr _) \<Rightarrow>
               (case named_temporary_file env (path_parent p) w1 of
                  (w2, Inl e) \<Rightarrow> (w2, Inl e)
                | (w2, Inr tmp_path) \<Rightarrow>
                    (case write_tmp env tmp_path wc w2 of
                       (w3, Inl e) \<Rightarrow> (w3, Inl e)
                     | (w3, Inr _) \<Rightarrow>
                         (case replace_file env tmp_path p w3 of
                            (w4, Inl e) \<Rightarrow> (w4, Inl e)
                          | (w4, Inr _) \<Rightarrow>
                              (add_log DEBUG (AtomicWriteDone p) w4, Inr ()))))))"

section \<open>Catalogue repository\<close>

text \<open>
  \<^verbatim>\<open>
  def load_shortcuts_binary(path: Path) -> Dict:
      if not path.exists():
          logger.info(...)
          return {"shortcuts": {}}
      try:
          with path.open("rb") as f:
              data = vdf.binary_load(f)
          if "shortcuts" not in data:
              data.setdefault("shortcuts", {})
          return data
      except Exception as e:
          logger.error(..., path, e)
          raise
  \<close>
\<close>

definition load_shortcuts_binary :: "env \<Rightarrow> path \<Rightarrow> world \<Rightarrow> world \<times> (exn + pydict)" where
  "load_shortcuts_binary env p w =
     (case fs_fault env (Exists p) of
        Some e \<Rightarrow> (w, Inl e)
      | None \<Rightarrow>
     (case files w p of
        None \<Rightarrow> (add_log INFO VdfNotFound w, Inr [(lit ''shortcuts'', VDict [])])
      | Some content \<Rightarrow>
          (case fs_fault env (OpenRead p) of
             Some e \<Rightarrow> (add_log ERROR (VdfLoadFailed p e) w, Inl e)
           | None \<Rightarrow>
               (case vdf_binary_load env content of
                  Inl e \<Rightarrow> (add_log ERROR (VdfLoadFailed p e) w, Inl e)
                | Inr data \<Rightarrow>
                    (if lit ''shortcuts'' \<notin> set (dict_keys data)
                     then (w, Inr (fst (dict_setdefault data (lit ''shortcuts'') (VDict []))))
                     else (w, Inr data))))))"

section \<open>Process coordinator\<close>

text \<open>
  The variant is a Python string; the source compares it with five literals and accepts
  any other string too. Commands, variants and captured output are ASCII and written
  as \<open>string\<close>. \<open>home_steam_sh env\<close> is the string of
  \<open>Path.home() / ".local" / "share" / "Steam" / "steam.sh"\<close>, or the exception that
  \<open>Path.home()\<close> raises when the home directory cannot be determined.
\<close>

definition startswith :: "string \<Rightarrow> string \<Rightarrow> bool" where
  "startswith s p = (take (length p) s = p)"

fun py_in :: "string \<Rightarrow> string \<Rightarrow> bool" where
  "py_in needle [] = (needle = [])"
| "py_in needle (c # cs) = (take (length needle) (c # cs) = needle \<or> py_in needle cs)"

text \<open>Truth value of \<open>shutil.which(c)\<close>: \<open>None\<close> and the empty string are false.\<close>

definition which_truthy :: "env \<Rightarrow> string \<Rightarrow> bool" where
  "which_truthy env c = (case which env c of None \<Rightarrow> False | Some s \<Rightarrow> s \<noteq> [])"

definition run_cmd :: "env \<Rightarrow> string list \<Rightarrow> world \<Rightarrow> world \<times> (exn + proc_result)" where
  "run_cmd env args w = (add_proc (Run args) w, run_proc env args)"

definition popen_cmd :: "env \<Rightarrow> string list \<Rightarrow> bool \<Rightarrow> world \<Rightarrow> world \<times> (exn + unit)" where
  "popen_cmd env args shell w =
     (add_proc (Popen args shell) w,
      (case popen env args shell of Some e \<Rightarrow> Inl e | None \<Rightarrow> Inr ()))"

definition backslash :: char where
  "backslash = CHR 0x5C"

definition windows_candidates :: "string list" where
  "windows_candidates =
     [''C:'' @ backslash # ''Program Files (x86)'' @ backslash # ''Steam'' @ backslash # ''Steam.exe'',
      ''C:'' @ backslash # ''Program Files'' @ backslash # ''Steam'' @ backslash # ''Steam.exe'',
      ''C:'' @ backslash # ''Program Files (x86)'' @ backslash # ''Steam'' @ backslash # ''steam.exe'']"

text \<open>
  \<^verbatim>\<open>
  def detect_steam_variant() -> str:
      system = platform.system().lower()
      if system.startswith("windows"):
          return "windows"
      if system.startswith("linux"):
          if shutil.which("flatpak"):
              try:
                  r = subprocess.run(["flatpak", "info", "com.valvesoftware.Steam"], ...)
                  if r.returncode == 0:
                      return "linux_flatpak"
              except Exception:
                  pass
          if shutil.which("steam"):
              return "linux_native"
          possible = [Path.home() / ".local" / "share" / "Steam" / "steam.sh",
                      Path("/usr/bin/steam"), Path("/usr/games/steam")]
          for p in possible:
              if p.exists():
                  return "linux_native"
      if system.startswith("darwin"):
          return "darwin_native"
      return "unknown"
  \<close>
\<close>

text \<open>
  The loop \<open>for p in possible: if p.exists(): return "linux_native"\<close>; a raising
  \<open>exists()\<close> ends it with that exception. \<open>detect_native\<close> is the part of the
  Linux branch after the Flatpak check; neither \<open>Path.home()\<close> nor the loop stands
  in a \<open>try\<close>, so their exceptions leave \<open>detect_steam_variant\<close>.
\<close>

fun any_exists :: "env \<Rightarrow> string list \<Rightarrow> exn + bool" where
  "any_exists env [] = Inr False"
| "any_exists env (p # ps) =
     (case path_exists env p of
        Inl e \<Rightarrow> Inl e
      | Inr True \<Rightarrow> Inr True
      | Inr False \<Rightarrow> any_exists env ps)"

definition detect_native :: "env \<Rightarrow> exn + string" where
  "detect_native env =
     (if which_truthy env ''steam'' then Inr ''linux_native''
      else
        (case home_steam_sh env of
           Inl e \<Rightarrow> Inl e
         | Inr local_sh \<Rightarrow>
             (case any_exists env [local_sh, ''/usr/bin/steam'', ''/usr/games/steam''] of
                Inl e \<Rightarrow> Inl e
              | Inr True \<Rightarrow> Inr ''linux_native''
              | Inr False \<Rightarrow>
                  (if startswith (platform_system_lower env) ''darwin'' then Inr ''darwin_native''
                   else Inr ''unknown''))))"

definition detect_steam_variant :: "env \<Rightarrow> world \<Rightarrow> world \<times> (exn + string)" where
  "detect_steam_variant env w =
     (if startswith (platform_system_lower env) ''windows'' then (w, Inr ''windows'')
      else if startswith (platform_system_lower env) ''linux'' then
        (if which_truthy env ''flatpak'' then
           (case run_cmd env [''flatpak'', ''info'', ''com.valvesoftware.Steam''] w of
              (w1, Inr r) \<Rightarrow>
                (if returncode r = 0 then (w1, Inr ''linux_flatpak'') else (w1, detect_native env))
            | (w1, Inl e) \<Rightarrow> (w1, detect_native env))
         else (w, detect_native env))
      else if startswith (platform_system_lower env) ''darwin'' then (w, Inr ''darwin_native'')
      else (w, Inr ''unknown''))"

text \<open>
  \<^verbatim>\<open>
  def is_steam_running(variant: str) -> bool:
      try:
          if variant == "windows":
              out = subprocess.run(["tasklist", "/FI", "IMAGENAME eq steam.exe"], ...)
              return "steam.exe" in out.stdout.lower()
          if variant == "linux_flatpak":
              out = subprocess.run(["pgrep", "-f", "com.valvesoftware.Steam"], ...)
              return out.returncode == 0
          out = subprocess.run(["pgrep", "-f", "steam"], capture_output=True)
          return out.returncode == 0
      except Exception:
          return False
  \<close>
  Each of the three functions below is its \<open>try\<close> block (\<open>..._try\<close>), which can
  raise, under its \<open>except Exception\<close> handler.
\<close>

definition is_steam_running_try :: "env \<Rightarrow> string \<Rightarrow> world \<Rightarrow> world \<times> (exn + bool)" where
  "is_steam_running_try env variant w =
     (if variant = ''windows'' then
        (case run_cmd env [''tasklist'', ''/FI'', ''IMAGENAME eq steam.exe''] w of
           (w1, Inl e) \<Rightarrow> (w1, Inl e)
         | (w1, Inr out) \<Rightarrow> (w1, Inr (py_in ''steam.exe'' (stdout_lower out))))
      else if variant = ''linux_flatpak'' then
        (case run_cmd env [''pgrep'', ''-f'', ''com.valvesoftware.Steam''] w of
           (w1, Inl e) \<Rightarrow> (w1, Inl e)
         | (w1, Inr out) \<Rightarrow> (w1, Inr (returncode out = 0)))
      else
        (case run_cmd env [''pgrep'', ''-f'', ''steam''] w of
           (w1, Inl e) \<Rightarrow> (w1, Inl e)
         | (w1, Inr out) \<Rightarrow> (w1, Inr (returncode out = 0))))"

definition is_steam_running :: "env \<Rightarrow> string \<Rightarrow> world \<Rightarrow> world \<times> (exn + bool)" where
  "is_steam_running env variant w =
     (case is_steam_running_try env variant w of
        (w1, Inl e) \<Rightarrow> (w1, Inr False)
      | (w1, Inr b) \<Rightarrow> (w1, Inr b))"

text \<open>
  \<^verbatim>\<open>
  def stop_steam(variant: str) -> bool:
      try:
          if variant == "windows":
              subprocess.run(["taskkill", "/IM", "steam.exe", "/F"], check=False)
              return True
          if variant == "linux_flatpak":
              subprocess.run(["flatpak", "kill", "com.valvesoftware.Steam"], check=False)
              subprocess.run(["pkill", "-f", "steam"], check=False)
              return True
          if variant in ("linux_native", "darwin_native"):
              subprocess.run(["pkill", "-f", "steam"], check=False)
              return True
      except Exception:
          return False
      return False
  \<close>
\<close>

definition stop_steam_try :: "env \<Rightarrow> string \<Rightarrow> world \<Rightarrow> world \<times> (exn + bool)" where
  "stop_steam_try env variant w =
     (if variant = ''windows'' then
        (case run_cmd env [''taskkill'', ''/IM'', ''steam.exe'', ''/F''] w of
           (w1, Inl e) \<Rightarrow> (w1, Inl e)
         | (w1, Inr _) \<Rightarrow> (w1, Inr True))
      else if variant = ''linux_flatpak'' then
        (case run_cmd env [''flatpak'', ''kill'', ''com.valvesoftware.Steam''] w of
           (w1, Inl e) \<Rightarrow> (w1, Inl e)
         | (w1, Inr _) \<Rightarrow>
             (case run_cmd env [''pkill'', ''-f'', ''steam''] w1 of
                (w2, Inl e) \<Rightarrow> (w2, Inl e)
              | (w2, Inr _) \<Rightarrow> (w2, Inr True)))
      else if variant \<in> set [''linux_native'', ''darwin_native''] then
        (case run_cmd env [''pkill'', ''-f'', ''steam''] w of
           (w1, Inl e) \<Rightarrow> (w1, Inl e)
         | (w1, Inr _) \<Rightarrow> (w1, Inr True))
      else (w, Inr False))"

definition stop_steam :: "env \<Rightarrow> string \<Rightarrow> world \<Rightarrow> world \<times> (exn + bool)" where
  "stop_steam env variant w =
     (case stop_steam_try env variant w of
        (w1, Inl e) \<Rightarrow> (w1, Inr False)
      | (w1, Inr b) \<Rightarrow> (w1, Inr b))"

text \<open>
  \<^verbatim>\<open>
  def start_steam(variant: str) -> bool:
      try:
          if variant == "windows":
              candidates = [...]
              for p in candidates:
                  if p.exists():
                      subprocess.Popen([str(p)], ...)
                      return True
              try:
                  subprocess.Popen(["start", "steam://open"], shell=True)
                  return True
              except Exception:
                  return False
          if variant == "linux_flatpak":
              subprocess.Popen(["flatpak", "run", "com.valvesoftware.Steam"], ...)
              return True
          if variant == "linux_native":
              steam_cmd = shutil.which("steam") or shutil.which("steamcmd")
              if steam_cmd:
                  subprocess.Popen([steam_cmd], ...)
                  return True
              local_sh = Path.home() / ".local" / "share" / "Steam" / "steam.sh"
              if local_sh.exists():
                  subprocess.Popen([str(local_sh)], ...)
                  return True
          if variant == "darwin_native":
              subprocess.Popen(["open", "-a", "Steam"], ...)
              return True
      except Exception:
          return False
      return False
  \<close>
\<close>

fun start_candidates :: "env \<Rightarrow> string list \<Rightarrow> world \<Rightarrow> world \<times> (exn + bool)" where
  "start_candidates env [] w =
     (case popen_cmd env [''start'', ''steam://open''] True w of
        (w1, Inl e) \<Rightarrow> (w1, Inr False)
      | (w1, Inr _) \<Rightarrow> (w1, Inr True))"
| "start_candidates env (p # ps) w =
     (case path_exists env p of
        Inl e \<Rightarrow> (w, Inl e)
      | Inr True \<Rightarrow>
          (case popen_cmd env [p] False w of
             (w1, Inl e) \<Rightarrow> (w1, Inl e)
           | (w1, Inr _) \<Rightarrow> (w1, Inr True))
      | Inr False \<Rightarrow> start_candidates env ps w)"

definition steam_cmd_of :: "env \<Rightarrow> string option" where
  "steam_cmd_of env =
     (if which_truthy env ''steam'' then which env ''steam''
      else if which_truthy env ''steamcmd'' then which env ''steamcmd''
      else None)"

definition start_steam_try :: "env \<Rightarrow> string \<Rightarrow> world \<Rightarrow> world \<times> (exn + bool)" where
  "start_steam_try env variant w =
     (if variant = ''windows'' then start_candidates env windows_candidates w
      else if variant = ''linux_flatpak'' then
        (case popen_cmd env [''flatpak'', ''run'', ''com.valvesoftware.Steam''] False w of
           (w1, Inl e) \<Rightarrow> (w1, Inl e)
         | (w1, Inr _) \<Rightarrow> (w1, Inr True))
      else if variant = ''linux_native'' then
        (case steam_cmd_of env of
           Some steam_cmd \<Rightarrow>
             (case popen_cmd env [steam_cmd] False w of
                (w1, Inl e) \<Rightarrow> (w1, Inl e)
              | (w1, Inr _) \<Rightarrow> (w1, Inr True))
         | None \<Rightarrow>
             (case home_steam_sh env of
                Inl e \<Rightarrow> (w, Inl e)
              | Inr local_sh \<Rightarrow>
                  (case path_exists env local_sh of
                     Inl e \<Rightarrow> (w, Inl e)
                   | Inr True \<Rightarrow>
                       (case popen_cmd env [local_sh] False w of
                          (w1, Inl e) \<Rightarrow> (w1, Inl e)
                        | (w1, Inr _) \<Rightarrow> (w1, Inr True))
                   | Inr False \<Rightarrow> (w, Inr False))))
      else if variant = ''darwin_native'' then
        (case popen_cmd env [''open'', ''-a'', ''Steam''] False w of
           (w1, Inl e) \<Rightarrow> (w1, Inl e)
         | (w1, Inr _) \<Rightarrow> (w1, Inr True))
      else (w, Inr False))"

definition start_steam :: "env \<Rightarrow> string \<Rightarrow> world \<Rightarrow> world \<times> (exn + bool)" where
  "start_steam env variant w =
     (case start_steam_try env variant w of
        (w1, Inl e) \<Rightarrow> (w1, Inr False)
      | (w1, Inr b) \<Rightarrow> (w1, Inr b))"

text \<open>
  \<^verbatim>\<open>
  def restart_steam_if_running(prompt_before_restart=False, allow_restart=True):
      variant = detect_steam_variant()
      running = is_steam_running(variant)
      if not running:
          return variant, False
      if not allow_restart:
          return variant, False
      if prompt_before_restart and sys.stdin.isatty():
          ans = input(...).strip().lower()
          if ans not in ("y", "yes"):
              logger.info(...)
              return variant, False
      logger.info(..., variant)
      stopped = stop_steam(variant)
      time.sleep(1.5)
      logger.info(..., variant)
      started = start_steam(variant)
      performed = stopped or started
      return variant, performed
  \<close>
  \<open>stop_wait_start\<close> is the last block; the pause is recorded in milliseconds.
\<close>

definition stop_wait_start :: "env \<Rightarrow> string \<Rightarrow> world \<Rightarrow> world \<times> (exn + string \<times> bool)" where
  "stop_wait_start env variant w =
     (case stop_steam env variant (add_log INFO (StoppingSteam variant) w) of
        (w1, Inl e) \<Rightarrow> (w1, Inl e)
      | (w1, Inr stopped) \<Rightarrow>
          (case start_steam env variant
                  (add_log INFO (StartingSteam variant) (add_proc (Sleep 1500) w1)) of
             (w2, Inl e) \<Rightarrow> (w2, Inl e)
           | (w2, Inr started) \<Rightarrow> (w2, Inr (variant, stopped \<or> started))))"

definition restart_steam_if_running ::
  "env \<Rightarrow> bool \<Rightarrow> bool \<Rightarrow> world \<Rightarrow> world \<times> (exn + string \<times> bool)" where
  "restart_steam_if_running env prompt_before_restart allow_restart w =
     (case detect_steam_variant env w of
        (w1, Inl e) \<Rightarrow> (w1, Inl e)
      | (w1, Inr variant) \<Rightarrow>
          (case is_steam_running env variant w1 of
             (w2, Inl e) \<Rightarrow> (w2, Inl e)
           | (w2, Inr running) \<Rightarrow>
               (if \<not> running then (w2, Inr (variant, False))
                else if \<not> allow_restart then (w2, Inr (variant, False))
                else if prompt_before_restart \<and> stdin_isatty env then
                  (case input_answer env of
                     Inl e \<Rightarrow> (add_proc Input w2, Inl e)
                   | Inr ans \<Rightarrow>
                       (if ans \<notin> set [''y'', ''yes'']
                        then (add_log INFO UserCancelled (add_proc Input w2), Inr (variant, False))
                        else stop_wait_start env variant (add_proc Input w2)))
                else stop_wait_start env variant w2)))"

section \<open>Orchestrator\<close>

text \<open>
  \<^verbatim>\<open>
  def dump_shortcuts_binary(path: Path, shortcuts_obj: Dict):
      def writer(fp):
          try:
              vdf.binary_dump(fp, shortcuts_obj)
              return
          except TypeError as e:
              logger.debug(...)
          except Exception as e:
              logger.debug(...)
          try:
              vdf.binary_dump(shortcuts_obj, fp)
              return
          except Exception as e:
              logger.error(...)
              raise
      atomic_write_file_with_vdf(path, writer)
      logger.info(..., path)
  \<close>
\<close>

definition writer :: "env \<Rightarrow> pydict \<Rightarrow> write_callable" where
  "writer env shortcuts_obj =
     (case vdf_dump_swapped env shortcuts_obj of
        (bs1, None) \<Rightarrow> ([], bs1, None)
      | (bs1, Some e) \<Rightarrow>
          (let l1 = [(DEBUG, if e = TypeError then DumpTypeError e else DumpFailed e)]
           in (case vdf_dump env shortcuts_obj of
                 (bs2, None) \<Rightarrow> (l1, bs1 @ bs2, None)
               | (bs2, Some e2) \<Rightarrow> (l1 @ [(ERROR, DumpFailedBoth e2)], bs1 @ bs2, Some e2))))"

definition dump_shortcuts_binary :: "env \<Rightarrow> path \<Rightarrow> pydict \<Rightarrow> world \<Rightarrow> world \<times> (exn + unit)" where
  "dump_shortcuts_binary env p shortcuts_obj w =
     (case atomic_write_file_with_vdf env p (writer env shortcuts_obj) w of
        (w1, Inl e) \<Rightarrow> (w1, Inl e)
      | (w1, Inr _) \<Rightarrow> (add_log INFO (VdfWritten p) w1, Inr ()))"

text \<open>
  The entry literal of \<open>add_non_steam_game\<close>:
  \<^verbatim>\<open>
  entry = {"appid": app_id, "appname": game_name, "exe": f'"{exe}"',
           "StartDir": f'"{game_path}"', "LaunchOptions": launch_options,
           "IsHidden": 0, "AllowDesktopConfig": 1, "OpenVR": 0, "Devkit": 0,
           "DevkitGameID": "", "LastPlayTime": 0, "tags": {}}
  \<close>
\<close>

definition quoted :: "pystr \<Rightarrow> pystr" where
  "quoted s = 34 # s @ [34]"

definition make_entry :: "pystr \<Rightarrow> pystr \<Rightarrow> pystr \<Rightarrow> pystr \<Rightarrow> pystr \<Rightarrow> pydict" where
  "make_entry app_id game_name exe game_path launch_options =
     [(lit ''appid'', VStr app_id),
      (lit ''appname'', VStr game_name),
      (lit ''exe'', VStr (quoted exe)),
      (lit ''StartDir'', VStr (quoted game_path)),
      (lit ''LaunchOptions'', VStr launch_options),
      (lit ''IsHidden'', VInt 0),
      (lit ''AllowDesktopConfig'', VInt 1),
      (lit ''OpenVR'', VInt 0),
      (lit ''Devkit'', VInt 0),
      (lit ''DevkitGameID'', VStr []),
      (lit ''LastPlayTime'', VInt 0),
      (lit ''tags'', VDict [])]"

text \<open>
  The artwork step of \<open>add_non_steam_game\<close>; the network and the image files under
  \<open>config/grid\<close> are outside the model, only whether the step raises is kept.
  \<^verbatim>\<open>
  game_id = self.search_game_on_steamgriddb(game_name)
  if game_id:
      logger.info(..., game_id)
      self.save_images_to_grid(app_id, game_id, user_id)
  else:
      logger.debug(...)
  \<close>
\<close>

definition fetch_artwork :: "env \<Rightarrow> pystr \<Rightarrow> pystr \<Rightarrow> pystr \<Rightarrow> world \<Rightarrow> world \<times> (exn + unit)" where
  "fetch_artwork env app_id game_name user_id w =
     (case search_game env game_name of
        Inl e \<Rightarrow> (w, Inl e)
      | Inr None \<Rightarrow> (add_log DEBUG GameIdMissing w, Inr ())
      | Inr (Some game_id) \<Rightarrow>
          (if game_id = 0 then (add_log DEBUG GameIdMissing w, Inr ())
           else (case save_images env app_id game_id user_id of
                   Some e \<Rightarrow> (add_log INFO (GameIdFound game_id) w, Inl e)
                 | None \<Rightarrow> (add_log INFO (GameIdFound game_id) w, Inr ()))))"

text \<open>
  \<^verbatim>\<open>
  try:
      shortcuts = load_shortcuts_binary(shortcuts_file)
  except Exception:
      shortcuts = {"shortcuts": {}}
  \<close>
\<close>

definition load_or_empty :: "env \<Rightarrow> path \<Rightarrow> world \<Rightarrow> world \<times> pydict" where
  "load_or_empty env p w =
     (case load_shortcuts_binary env p w of
        (w1, Inl e) \<Rightarrow> (w1, [(lit ''shortcuts'', VDict [])])
      | (w1, Inr shortcuts) \<Rightarrow> (w1, shortcuts))"

definition shortcuts_file_of :: "path \<Rightarrow> pystr \<Rightarrow> path" where
  "shortcuts_file_of steam_dir user_id =
     path_join (path_join (path_join steam_dir user_id) (lit ''config'')) (lit ''shortcuts.vdf'')"

text \<open>
  \<^verbatim>\<open>
  def add_non_steam_game(self, game_exe_path, game_name, user_id, launch_options=""):
      exe = str(Path(game_exe_path).expanduser())
      if not Path(exe).exists():
          raise FileNotFoundError(...)
      app_id = generate_appid(game_name, exe)
      game_path = str(Path(exe).parent)
      (artwork)
      shortcuts_file = self._user_path(user_id) / "config" / "shortcuts.vdf"
      (load or empty)
      entry = {...}
      idx = len(shortcuts.get("shortcuts", {}))
      shortcuts.setdefault("shortcuts", {})[str(idx)] = entry
      variant, restarted = restart_steam_if_running(prompt_before_restart=False,
                                                    allow_restart=True)
      if restarted:
          logger.info(..., variant)
          time.sleep(2.0)
      dump_shortcuts_binary(shortcuts_file, shortcuts)
      logger.info(..., game_name, app_id, user_id)
      return {"status": "success", "app_id": app_id}
  \<close>
  \<open>write_catalogue\<close> is the part from the restart on.
\<close>

definition write_catalogue ::
  "env \<Rightarrow> path \<Rightarrow> pydict \<Rightarrow> world \<Rightarrow> world \<times> (exn + unit)" where
  "write_catalogue env shortcuts_file shortcuts w =
     (case restart_steam_if_running env False True w of
        (w1, Inl e) \<Rightarrow> (w1, Inl e)
      | (w1, Inr (variant, restarted)) \<Rightarrow>
          dump_shortcuts_binary env shortcuts_file shortcuts
            (if restarted then add_proc (Sleep 2000) (add_log INFO (SteamRestarted variant) w1)
             else w1))"

definition add_non_steam_game ::
  "env \<Rightarrow> path \<Rightarrow> pystr \<Rightarrow> pystr \<Rightarrow> pystr \<Rightarrow> pystr \<Rightarrow> world \<Rightarrow> world \<times> (exn + pydict)" where
  "add_non_steam_game env steam_dir game_exe_path game_name user_id launch_options w =
     (case expanduser env game_exe_path of
        Inl e \<Rightarrow> (w, Inl e)
      | Inr exe \<Rightarrow>
        (case exe_exists env exe of
           Inl e \<Rightarrow> (w, Inl e)
         | Inr False \<Rightarrow> (w, Inl FileNotFoundError)
         | Inr True \<Rightarrow>
        (case generate_appid game_name exe of
           Inl e \<Rightarrow> (w, Inl e)
         | Inr app_id \<Rightarrow>
             (case fetch_artwork env app_id game_name user_id w of
                (w1, Inl e) \<Rightarrow> (w1, Inl e)
              | (w1, Inr _) \<Rightarrow>
                  (case load_or_empty env (shortcuts_file_of steam_dir user_id) w1 of
                     (w2, shortcuts) \<Rightarrow>
                       (case insert_entry shortcuts
                               (VDict (make_entry app_id game_name exe (parent_str env exe)
                                         launch_options)) of
                          Inl e \<Rightarrow> (w2, Inl e)
                        | Inr (shortcuts', idx) \<Rightarrow>
                            (case write_catalogue env (shortcuts_file_of steam_dir user_id)
                                    shortcuts' w2 of
                               (w3, Inl e) \<Rightarrow> (w3, Inl e)
                             | (w3, Inr _) \<Rightarrow>
                                 (add_log INFO (GameAdded game_name app_id user_id) w3,
                                  Inr [(lit ''status'', VStr (lit ''success'')),
                                       (lit ''app_id'', VStr app_id)]))))))))"


section \<open>A sample environment\<close>

text \<open>
  One concrete environment for the examples: a Linux host with a native client that is
  running, no failing file operation, and a small serialiser in the layout of binary
  VDF (type tag, key, NUL, value; the octet 8 closes a mapping). The sample decoder
  knows two files only, the empty document and the empty catalogue, and rejects
  every other content.
\<close>

fun sample_encode :: "pystr \<times> pyval \<Rightarrow> bytes" where
  "sample_encode (k, VStr s) = 1 # utf8_bytes k @ [0] @ utf8_bytes s @ [0]"
| "sample_encode (k, VInt i) =
     2 # utf8_bytes k @ [0] @
       [of_int i, of_int (i div 256), of_int (i div 65536), of_int (i div 16777216)]"
| "sample_encode (k, VDict d) = 0 # utf8_bytes k @ [0] @ concat (map sample_encode d) @ [8]"

definition sample_dump :: "pydict \<Rightarrow> bytes \<times> exn option" where
  "sample_dump d = (concat (map sample_encode d) @ [8], None)"

definition sample_load :: "bytes \<Rightarrow> exn + pydict" where
  "sample_load bs =
     (if bs = [8] then Inr []
      else if bs = fst (sample_dump [(lit ''shortcuts'', VDict [])])
      then Inr [(lit ''shortcuts'', VDict [])]
      else Inl (LibError ''SyntaxError''))"

definition sample_env :: env where
  "sample_env =
     \<lparr>fs_fault = (\<lambda>op. None),
      strftime = lit ''20240101-120000'',
      tmp_names = [lit ''tmpk3x9q2ab''],
      vdf_binary_load = sample_load,
      vdf_dump_swapped = (\<lambda>d. ([], Some TypeError)),
      vdf_dump = sample_dump,
      platform_system_lower = ''linux'',
      which = (\<lambda>c. if c = ''steam'' then Some ''/usr/bin/steam'' else None),
      home_steam_sh = Inr ''/home/user/.local/share/Steam/steam.sh'',
      path_exists = (\<lambda>p. Inr (p = ''/usr/bin/steam'')),
      run_proc = (\<lambda>args. if args = [''pgrep'', ''-f'', ''steam''] \<or> args = [''pkill'', ''-f'', ''steam'']
                         then Inr \<lparr>returncode = 0, stdout_lower = []\<rparr>
                         else Inl FileNotFoundError),
      popen = (\<lambda>args shell. None),
      stdin_isatty = False,
      input_answer = Inr ''n'',
      expanduser = (\<lambda>s. Inr s),
      exe_exists = (\<lambda>s. Inr (s = lit ''/games/foo/run.bin'')),
      parent_str = (\<lambda>s. if s = lit ''/games/foo/run.bin'' then lit ''/games/foo'' else []),
      search_game = (\<lambda>n. Inr None),
      save_images = (\<lambda>a g u. None)\<rparr>"

definition sample_file :: path where
  "sample_file = shortcuts_file_of [lit ''userdata''] (lit ''42'')"

definition sample_world :: "bytes \<Rightarrow> world" where
  "sample_world bs = \<lparr>files = [sample_file \<mapsto> bs], log = [], procs = []\<rparr>"

definition empty_world :: world where
  "empty_world = \<lparr>files = Map.empty, log = [], procs = []\<rparr>"


section \<open>Properties\<close>

subsection \<open>Strings and numerals\<close>

lemma encode_utf8_ok: "\<forall>c\<in>set s. \<not> is_surrogate c \<Longrightarrow> encode_utf8 s = Inr (utf8_bytes s)"
  by (induction s) (simp_all add: utf8_bytes_def)

lemma encode_utf8_fail: "\<exists>c\<in>set s. is_surrogate c \<Longrightarrow> encode_utf8 s = Inl UnicodeEncodeError"
proof (induction s)
  case Nil
  then show ?case by simp
next
  case (Cons a s)
  show ?case
  proof (cases "is_surrogate a")
    case True
    then show ?thesis by simp
  next
    case False
    with Cons.prems have "\<exists>c\<in>set s. is_surrogate c" by auto
    then have "encode_utf8 s = Inl UnicodeEncodeError" by (rule Cons.IH)
    with False show ?thesis by simp
  qed
qed

lemma utf8_bytes_append: "utf8_bytes (a @ b) = utf8_bytes a @ utf8_bytes b"
  by (simp add: utf8_bytes_def)

lemma str_nat_digits: "\<forall>c\<in>set (str_nat n). is_digit c"
proof (induction n rule: str_nat.induct)
  case (1 n)
  show ?case
  proof (cases "n < 10")
    case True
    then show ?thesis by (subst str_nat.simps) (simp add: is_digit_def)
  next
    case False
    have "n mod 10 < 10" by simp
    then have "is_digit (48 + n mod 10)" unfolding is_digit_def by linarith
    with False 1 show ?thesis by (subst str_nat.simps) simp
  qed
qed

lemma nat_of_digits_snoc: "nat_of_digits (s @ [c]) = 10 * nat_of_digits s + (c - 48)"
  by (simp add: nat_of_digits_def)

lemma nat_of_digits_str_nat: "nat_of_digits (str_nat n) = n"
proof (induction n rule: str_nat.induct)
  case (1 n)
  show ?case
  proof (cases "n < 10")
    case True
    then show ?thesis by (subst str_nat.simps) (simp add: nat_of_digits_def)
  next
    case False
    with 1 show ?thesis by (subst str_nat.simps) (simp add: nat_of_digits_snoc)
  qed
qed

lemma str_nat_inj: "str_nat m = str_nat n \<Longrightarrow> m = n"
  by (metis nat_of_digits_str_nat)

lemma length_str_nat_le: "0 < k \<Longrightarrow> n < 10 ^ k \<Longrightarrow> length (str_nat n) \<le> k"
proof (induction k arbitrary: n)
  case 0
  then show ?case by simp
next
  case (Suc k)
  show ?case
  proof (cases "n < 10")
    case True
    then show ?thesis by (subst str_nat.simps) simp
  next
    case False
    then have k: "0 < k" using Suc.prems by (cases k) auto
    have "n div 10 < 10 ^ k" using Suc.prems by (simp add: less_mult_imp_div_less mult.commute)
    from Suc.IH[OF k this] False show ?thesis by (subst str_nat.simps) simp
  qed
qed

lemma length_str_nat_ge: "10 ^ k \<le> n \<Longrightarrow> k < length (str_nat n)"
proof (induction k arbitrary: n)
  case 0
  then show ?case by (subst str_nat.simps) simp
next
  case (Suc k)
  have one: "(1::nat) \<le> 10 ^ k" by simp
  from Suc.prems have big: "10 * 10 ^ k \<le> n" by simp
  from one big have "\<not> n < 10" by linarith
  moreover have "10 ^ k \<le> n div 10" using Suc.prems by simp
  ultimately show ?case using Suc.IH[of "n div 10"] by (subst str_nat.simps) simp
qed

lemma py_str_int_nat: "py_str_int (int n) = str_nat n"
  by (simp add: py_str_int_def)

lemma unat_or_sign: "2147483648 \<le> unat ((w::32 word) OR 0x80000000)"
proof -
  have "(0x80000000::32 word) \<le> w OR 0x80000000" by (rule le_word_or1)
  then show ?thesis by (simp add: word_le_nat_alt)
qed

lemma unat_lt_32: "unat (w::32 word) < 4294967296"
proof -
  have "unat w < 2 ^ LENGTH(32)" by (rule unsigned_less)
  then show ?thesis by simp
qed

lemma crc32_byte_eval:
  "crc32_byte c b =
     crc32_shift (crc32_shift (crc32_shift (crc32_shift
       (crc32_shift (crc32_shift (crc32_shift (crc32_shift (c XOR ucast b))))))))"
  by (simp add: crc32_byte_def eval_nat_numeral)

lemma zlib_crc32_check: "zlib_crc32 (map of_char ''123456789'') = 0xCBF43926"
  by (simp add: zlib_crc32_def crc32_byte_eval crc32_shift_def)

lemma generate_appid_scenario:
  "generate_appid (lit ''Foo Game'') (lit ''/games/foo/run.bin'') = Inr (lit ''2792489181'')"
  by (simp add: generate_appid_def lit_def is_surrogate_def utf8_cp_def zlib_crc32_def
      crc32_byte_eval crc32_shift_def py_str_int_def str_nat.simps)

text \<open>
  A path with code points of two, three and four octets (U+00E9, U+20AC, U+1F600) and
  the name \<open>Z\<close>: the octets and the id are those CPython computes.
\<close>

lemma utf8_bytes_non_ascii:
  "encode_utf8 [47, 103, 47, 233, 8364, 128512, 90] =
     Inr [47, 103, 47, 195, 169, 226, 130, 172, 240, 159, 152, 128, 90]"
  by (simp add: is_surrogate_def utf8_cp_def)

lemma generate_appid_non_ascii:
  "generate_appid [90] [47, 103, 47, 233, 8364, 128512] = Inr (lit ''3620980693'')"
  by (simp add: generate_appid_def lit_def is_surrogate_def utf8_cp_def zlib_crc32_def
      crc32_byte_eval crc32_shift_def py_str_int_def str_nat.simps)

subsection \<open>Identifier generator\<close>

lemma generate_appid_ok:
  assumes "\<forall>c\<in>set (exe_path @ game_name). \<not> is_surrogate c"
  shows "\<exists>s. generate_appid game_name exe_path = Inr s
     \<and> s = str_nat (unat (zlib_crc32 (utf8_bytes exe_path @ utf8_bytes game_name) OR 0x80000000))
     \<and> (\<forall>c\<in>set s. is_digit c) \<and> length s = 10
     \<and> nat_of_digits s = unat (zlib_crc32 (utf8_bytes exe_path @ utf8_bytes game_name) OR 0x80000000)
     \<and> 2 ^ 31 \<le> nat_of_digits s \<and> nat_of_digits s < 2 ^ 32"
proof -
  let ?w = "zlib_crc32 (utf8_bytes exe_path @ utf8_bytes game_name) OR 0x80000000"
  have enc: "encode_utf8 (exe_path @ game_name) = Inr (utf8_bytes exe_path @ utf8_bytes game_name)"
    using encode_utf8_ok[OF assms] by (simp add: utf8_bytes_append)
  have "py_str_int (uint ?w) = str_nat (unat ?w)"
    using py_str_int_nat[of "unat ?w"] by simp
  with enc have g: "generate_appid game_name exe_path = Inr (str_nat (unat ?w))"
    by (simp add: generate_appid_def)
  have lo: "2147483648 \<le> unat ?w" by (rule unat_or_sign)
  have hi: "unat ?w < 4294967296" by (rule unat_lt_32)
  have "length (str_nat (unat ?w)) \<le> 10"
    using length_str_nat_le[of 10 "unat ?w"] hi by simp
  moreover have "9 < length (str_nat (unat ?w))"
    using length_str_nat_ge[of 9 "unat ?w"] lo by simp
  ultimately have len: "length (str_nat (unat ?w)) = 10" by simp
  show ?thesis
    using g len lo hi str_nat_digits[of "unat ?w"] nat_of_digits_str_nat[of "unat ?w"]
    by simp
qed

lemma generate_appid_surrogate:
  assumes "\<exists>c\<in>set (exe_path @ game_name). is_surrogate c"
  shows "generate_appid game_name exe_path = Inl UnicodeEncodeError"
  using encode_utf8_fail[OF assms] by (simp add: generate_appid_def)

text \<open>
  Claim C2, amended. For every executable path and display name that contain no
  surrogate code point, \<open>generate_appid\<close> returns without raising, and what it
  returns is the decimal numeral, ten digits long, of the CRC-32 of the UTF-8 octets of
  the path followed directly by those of the name, with bit 31 set: a value from
  \<open>2 ^ 31\<close> up to \<open>2 ^ 32 - 1\<close>. As a function of its two arguments it gives
  the same id for the same arguments. For every path and name of which one contains a
  surrogate code point, \<open>generate_appid\<close> raises \<open>UnicodeEncodeError\<close>.
\<close>

theorem generate_appid_crc32:
  "((\<forall>c\<in>set (exe_path @ game_name). \<not> is_surrogate c) \<longrightarrow>
      (\<exists>s. generate_appid game_name exe_path = Inr s
         \<and> s = str_nat (unat (zlib_crc32 (utf8_bytes exe_path @ utf8_bytes game_name)
                                OR 0x80000000))
         \<and> (\<forall>c\<in>set s. is_digit c) \<and> length s = 10
         \<and> nat_of_digits s =
             unat (zlib_crc32 (utf8_bytes exe_path @ utf8_bytes game_name) OR 0x80000000)
         \<and> 2 ^ 31 \<le> nat_of_digits s \<and> nat_of_digits s < 2 ^ 32))
   \<and> ((\<exists>c\<in>set (exe_path @ game_name). is_surrogate c) \<longrightarrow>
      generate_appid game_name exe_path = Inl UnicodeEncodeError)"
  using generate_appid_ok[of exe_path game_name] generate_appid_surrogate[of exe_path game_name]
  by blast

text \<open>
  The scenario of the specification, path \<open>/games/foo/run.bin\<close> and name
  \<open>Foo Game\<close>: the id is \<open>2792489181\<close>. The same path with a name that ends in the
  lone surrogate U+D800: \<open>UnicodeEncodeError\<close>.
\<close>

theorem generate_appid_crc32_witness:
  "filter is_surrogate (lit ''/games/foo/run.bin'' @ lit ''Foo Game'') = []
   \<and> generate_appid (lit ''Foo Game'') (lit ''/games/foo/run.bin'') = Inr (lit ''2792489181'')
   \<and> length (lit ''2792489181'') = 10
   \<and> 2 ^ 31 \<le> nat_of_digits (lit ''2792489181'')
   \<and> nat_of_digits (lit ''2792489181'') < 2 ^ 32
   \<and> filter is_surrogate (lit ''/games/foo/run.bin'' @ (lit ''Foo'' @ [0xD800])) = [0xD800]
   \<and> generate_appid (lit ''Foo'' @ [0xD800]) (lit ''/games/foo/run.bin'')
       = Inl UnicodeEncodeError"
proof -
  have f: "filter is_surrogate (lit ''/games/foo/run.bin'' @ lit ''Foo Game'') = []"
    by (simp add: lit_def is_surrogate_def)
  then have h: "\<forall>c\<in>set (lit ''/games/foo/run.bin'' @ lit ''Foo Game''). \<not> is_surrogate c"
    by (simp only: filter_empty_conv)
  from generate_appid_crc32[of "lit ''/games/foo/run.bin''" "lit ''Foo Game''"] h obtain s where
    s: "generate_appid (lit ''Foo Game'') (lit ''/games/foo/run.bin'') = Inr s"
    and len: "length s = 10"
    and lo: "2 ^ 31 \<le> nat_of_digits s" and hi: "nat_of_digits s < 2 ^ 32" by blast
  from s have eq: "s = lit ''2792489181''"
    by (simp add: generate_appid_scenario)
  have f2: "filter is_surrogate (lit ''/games/foo/run.bin'' @ (lit ''Foo'' @ [0xD800])) = [0xD800]"
    by (simp add: lit_def is_surrogate_def)
  then have "0xD800 \<in> set (filter is_surrogate (lit ''/games/foo/run.bin'' @ (lit ''Foo'' @ [0xD800])))"
    by simp
  then have h2: "\<exists>c\<in>set (lit ''/games/foo/run.bin'' @ (lit ''Foo'' @ [0xD800])). is_surrogate c"
    by auto
  from generate_appid_crc32[of "lit ''/games/foo/run.bin''" "lit ''Foo'' @ [0xD800]"] h2
  have r: "generate_appid (lit ''Foo'' @ [0xD800]) (lit ''/games/foo/run.bin'')
       = Inl UnicodeEncodeError" by blast
  from f s len lo hi f2 r show ?thesis unfolding eq by blast
qed

text \<open>
  Claim C2 as stated (the generator never fails) is false: a path holding the lone
  surrogate U+DC80, as \<open>os.fsdecode\<close> produces for the octet \<open>0x80\<close> in a file
  name, makes \<open>encode("utf-8")\<close> raise.
\<close>

theorem generate_appid_surrogate_counterexample:
  "generate_appid (lit ''Foo'') [0xDC80] = Inl UnicodeEncodeError"
  by (simp add: generate_appid_def is_surrogate_def)


subsection \<open>Entry insertion\<close>

lemma update_fresh: "k \<notin> fst ` set al \<Longrightarrow> AList.update k v al = al @ [(k, v)]"
  by (induction al) auto

lemma str_nat_fresh: "str_nat n \<notin> fst ` set (zip (map str_nat [0..<n]) vs)"
proof
  assume "str_nat n \<in> fst ` set (zip (map str_nat [0..<n]) vs)"
  then obtain v where "(str_nat n, v) \<in> set (zip (map str_nat [0..<n]) vs)" by auto
  then have "str_nat n \<in> set (map str_nat [0..<n])" by (rule set_zip_leftD)
  then obtain m where "m < n" and "str_nat m = str_nat n" by auto
  then show False using str_nat_inj by blast
qed

lemma py_str_int_0: "py_str_int 0 = str_nat 0"
  by (simp add: py_str_int_def)

lemma insert_entry_single:
  "insert_entry [(lit ''shortcuts'', VDict inner)] e =
     Inr ([(lit ''shortcuts'', VDict (AList.update (str_nat (length inner)) e inner))],
          str_nat (length inner))"
  by (simp add: insert_entry_def dict_get_def dict_setdefault_def py_str_int_nat py_str_int_0)

lemma insert_entry_absent:
  "insert_entry [] e = Inr ([(lit ''shortcuts'', VDict [(str_nat 0, e)])], str_nat 0)"
  by (simp add: insert_entry_def dict_get_def dict_setdefault_def py_str_int_nat py_str_int_0)

lemma insert_entry_general:
  assumes "dict_get d (lit ''shortcuts'') (VDict []) = VDict inner"
  shows "\<exists>d'. insert_entry d e = Inr (d', str_nat (length inner))
           \<and> dict_get d' (lit ''shortcuts'') (VDict []) =
               VDict (AList.update (str_nat (length inner)) e inner)"
proof (cases "map_of d (lit ''shortcuts'')")
  case None
  with assms have "inner = []" by (simp add: dict_get_def)
  with None show ?thesis
    by (simp add: insert_entry_def dict_get_def dict_setdefault_def py_str_int_nat
        py_str_int_0 update_conv')
next
  case (Some v)
  with assms have "v = VDict inner" by (simp add: dict_get_def)
  with Some show ?thesis
    by (simp add: insert_entry_def dict_get_def dict_setdefault_def py_str_int_nat
        py_str_int_0 update_conv')
qed

lemma insert_entries_from:
  assumes "length vs = n"
  shows "insert_entries [(lit ''shortcuts'', VDict (zip (map str_nat [0..<n]) vs))] es =
     Inr ([(lit ''shortcuts'', VDict (zip (map str_nat [0..<n + length es]) (vs @ es)))],
          map str_nat [n..<n + length es])"
  using assms
proof (induction es arbitrary: vs n)
  case Nil
  then show ?case by simp
next
  case (Cons e es)
  let ?inner = "zip (map str_nat [0..<n]) vs"
  have len: "length ?inner = n" using Cons.prems by simp
  have step: "AList.update (str_nat n) e ?inner = zip (map str_nat [0..<Suc n]) (vs @ [e])"
    using Cons.prems by (simp add: update_fresh[OF str_nat_fresh])
  have one: "insert_entry [(lit ''shortcuts'', VDict ?inner)] e =
      Inr ([(lit ''shortcuts'', VDict (zip (map str_nat [0..<Suc n]) (vs @ [e])))], str_nat n)"
    using insert_entry_single[of ?inner e] len step by simp
  have rest: "insert_entries [(lit ''shortcuts'', VDict (zip (map str_nat [0..<Suc n]) (vs @ [e])))] es =
      Inr ([(lit ''shortcuts'', VDict (zip (map str_nat [0..<Suc n + length es]) ((vs @ [e]) @ es)))],
           map str_nat [Suc n..<Suc n + length es])"
    using Cons.prems by (intro Cons.IH) simp
  have idx: "[n..<n + length (e # es)] = n # [Suc n..<Suc n + length es]"
    by (subst upt_rec) simp
  show ?case using one rest idx by simp
qed

text \<open>
  Claim C3. For every document whose \<open>"shortcuts"\<close> value is a mapping (or is
  absent, which counts as the empty mapping), inserting an entry gives it the key
  \<open>str(n)\<close> where \<open>n\<close> is the number of entries the mapping holds at that
  moment. Hence inserting the entries \<open>es\<close> one after the other into the empty
  catalogue yields the keys \<open>"0"\<close> to \<open>"k-1"\<close> for \<open>k = len(es)\<close>, pairwise
  distinct and in insertion order, each bound to its own entry; nothing is merged,
  whether or not entries of \<open>es\<close> are equal.
\<close>

theorem insert_entry_contiguous_keys:
  "(dict_get d (lit ''shortcuts'') (VDict []) = VDict inner \<longrightarrow>
      (\<exists>d'. insert_entry d e = Inr (d', str_nat (length inner))
         \<and> dict_get d' (lit ''shortcuts'') (VDict []) =
             VDict (AList.update (str_nat (length inner)) e inner)))
   \<and> insert_entries [(lit ''shortcuts'', VDict [])] es =
       Inr ([(lit ''shortcuts'', VDict (zip (map str_nat [0..<length es]) es))],
            map str_nat [0..<length es])
   \<and> distinct (map str_nat [0..<length es])
   \<and> length (zip (map str_nat [0..<length es]) es) = length es"
proof -
  have a: "insert_entries [(lit ''shortcuts'', VDict [])] es =
       Inr ([(lit ''shortcuts'', VDict (zip (map str_nat [0..<length es]) es))],
            map str_nat [0..<length es])"
    using insert_entries_from[of "[]" 0 es] by simp
  have b: "distinct (map str_nat [0..<length es])"
    by (simp add: distinct_map inj_on_def) (meson str_nat_inj)
  show ?thesis using a b insert_entry_general[of d inner e] by simp
qed

text \<open>A catalogue holding \<open>Foo\<close> under \<open>"0"\<close> receives \<open>Bar\<close> under \<open>"1"\<close>.\<close>

theorem insert_entry_contiguous_keys_witness:
  "insert_entry [(lit ''shortcuts'', VDict [(lit ''0'', VStr (lit ''Foo''))])] (VStr (lit ''Bar'')) =
     Inr ([(lit ''shortcuts'', VDict [(lit ''0'', VStr (lit ''Foo'')), (lit ''1'', VStr (lit ''Bar''))])],
          lit ''1'')"
proof -
  let ?d = "[(lit ''shortcuts'', VDict [(lit ''0'', VStr (lit ''Foo''))])]"
  have g: "dict_get ?d (lit ''shortcuts'') (VDict []) = VDict [(lit ''0'', VStr (lit ''Foo''))]"
    by (simp add: dict_get_def)
  from insert_entry_contiguous_keys[of ?d "[(lit ''0'', VStr (lit ''Foo''))]" "VStr (lit ''Bar'')" "[]"] g
  obtain d' where "insert_entry ?d (VStr (lit ''Bar'')) = Inr (d', str_nat 1)" by auto
  moreover have "insert_entry ?d (VStr (lit ''Bar'')) =
     Inr ([(lit ''shortcuts'', VDict [(lit ''0'', VStr (lit ''Foo'')), (lit ''1'', VStr (lit ''Bar''))])],
          lit ''1'')"
    by (simp add: insert_entry_def dict_get_def dict_setdefault_def py_str_int_def str_nat.simps lit_def)
  ultimately show ?thesis by simp
qed


subsection \<open>Catalogue repository\<close>

lemma files_add_log [simp]: "files (add_log l m w) = files w"
  by (simp add: add_log_def)

lemma files_add_proc [simp]: "files (add_proc ev w) = files w"
  by (simp add: add_proc_def)

lemma setdefault_absent:
  "k \<notin> set (dict_keys d) \<Longrightarrow> fst (dict_setdefault d k v) = d @ [(k, v)]"
proof -
  assume "k \<notin> set (dict_keys d)"
  then have "map_of d k = None" by (simp add: map_of_eq_None_iff dict_keys_def)
  then show ?thesis by (simp add: dict_setdefault_def)
qed

lemma keys_update: "set (dict_keys (AList.update k v d)) = insert k (set (dict_keys d))"
  by (simp add: dict_keys_def dom_update)

lemma load_shortcuts_binary_has_key:
  "snd (load_shortcuts_binary env p w) = Inr d \<Longrightarrow> lit ''shortcuts'' \<in> set (dict_keys d)"
  by (auto simp: load_shortcuts_binary_def setdefault_absent dict_keys_def
      split: option.splits sum.splits if_splits)

lemma insert_entry_has_key:
  "insert_entry d e = Inr (d', k) \<Longrightarrow> lit ''shortcuts'' \<in> set (dict_keys d')"
  by (auto simp: insert_entry_def keys_update split: sum.splits prod.splits)

text \<open>
  Claim C4, amended. When the existence check finds no file at the path,
  \<open>load_shortcuts_binary\<close> returns the fresh document \<open>{"shortcuts": {}}\<close>; when the
  path exists and decodes, it returns the decoded document, with an empty
  \<open>"shortcuts"\<close> mapping added at the end when the decoded data has no such key; when
  opening or decoding raises, it raises the same exception and returns no document.
  The existence check \<open>path.exists()\<close> stands before the \<open>try\<close>: when it raises,
  that exception leaves the function too, with nothing logged. The function never
  changes a file.
\<close>

theorem load_shortcuts_binary_cases:
  "(fs_fault env (Exists p) = None \<and> files w p = None \<longrightarrow>
      snd (load_shortcuts_binary env p w) = Inr [(lit ''shortcuts'', VDict [])])
   \<and> (fs_fault env (Exists p) = None \<and> files w p = Some bs
        \<and> fs_fault env (OpenRead p) = None \<and> vdf_binary_load env bs = Inr data \<longrightarrow>
      snd (load_shortcuts_binary env p w) =
        Inr (if lit ''shortcuts'' \<in> set (dict_keys data) then data
             else data @ [(lit ''shortcuts'', VDict [])]))
   \<and> (fs_fault env (Exists p) = None \<and> files w p = Some bs
        \<and> fs_fault env (OpenRead p) = None \<and> vdf_binary_load env bs = Inl e \<longrightarrow>
      snd (load_shortcuts_binary env p w) = Inl e)
   \<and> (fs_fault env (Exists p) = None \<and> files w p = Some bs
        \<and> fs_fault env (OpenRead p) = Some e \<longrightarrow>
      snd (load_shortcuts_binary env p w) = Inl e)
   \<and> (fs_fault env (Exists p) = Some e \<longrightarrow>
      load_shortcuts_binary env p w = (w, Inl e))
   \<and> files (fst (load_shortcuts_binary env p w)) = files w"
  by (auto simp: load_shortcuts_binary_def setdefault_absent
      split: option.splits sum.splits)

lemma sample_catalogue_bytes:
  "fst (sample_dump [(lit ''shortcuts'', VDict [])]) =
     [0, 115, 104, 111, 114, 116, 99, 117, 116, 115, 0, 8, 8]"
  by (simp add: sample_dump_def lit_def utf8_bytes_def utf8_cp_def)

text \<open>
  The five cases on the sample environment: no file; the empty catalogue; a file that
  the decoder rejects; a file behind an \<open>open\<close> that raises; a path whose
  \<open>exists()\<close> raises.
\<close>

theorem load_shortcuts_binary_cases_witness:
  "snd (load_shortcuts_binary sample_env sample_file empty_world) =
     Inr [(lit ''shortcuts'', VDict [])]
   \<and> snd (load_shortcuts_binary sample_env sample_file
            (sample_world [0, 115, 104, 111, 114, 116, 99, 117, 116, 115, 0, 8, 8])) =
     Inr [(lit ''shortcuts'', VDict [])]
   \<and> snd (load_shortcuts_binary sample_env sample_file (sample_world [1, 2, 3])) =
     Inl (LibError ''SyntaxError'')
   \<and> snd (load_shortcuts_binary
            (sample_env\<lparr>fs_fault := (\<lambda>op. case op of OpenRead q \<Rightarrow> Some (OSError ''EACCES'')
                                               | _ \<Rightarrow> None)\<rparr>)
            sample_file (sample_world [8])) = Inl (OSError ''EACCES'')
   \<and> load_shortcuts_binary
         (sample_env\<lparr>fs_fault := (\<lambda>op. case op of Exists q \<Rightarrow> Some (OSError ''ENAMETOOLONG'')
                                            | _ \<Rightarrow> None)\<rparr>)
         sample_file empty_world = (empty_world, Inl (OSError ''ENAMETOOLONG''))"
proof -
  let ?envr = "sample_env\<lparr>fs_fault := (\<lambda>op. case op of OpenRead q \<Rightarrow> Some (OSError ''EACCES'')
                                               | _ \<Rightarrow> None)\<rparr>"
  let ?enve = "sample_env\<lparr>fs_fault := (\<lambda>op. case op of Exists q \<Rightarrow> Some (OSError ''ENAMETOOLONG'')
                                            | _ \<Rightarrow> None)\<rparr>"
  have x: "fs_fault sample_env (Exists sample_file) = None" by (simp add: sample_env_def)
  let ?cat = "[0, 115, 104, 111, 114, 116, 99, 117, 116, 115, 0, 8, 8] :: bytes"
  have a: "files empty_world sample_file = None"
    by (simp add: empty_world_def)
  have b: "files (sample_world ?cat) sample_file = Some ?cat
      \<and> fs_fault sample_env (OpenRead sample_file) = None
      \<and> vdf_binary_load sample_env ?cat = Inr [(lit ''shortcuts'', VDict [])]"
    by (simp add: sample_world_def sample_env_def sample_load_def sample_catalogue_bytes)
  have c: "files (sample_world [1, 2, 3]) sample_file = Some [1, 2, 3]
      \<and> fs_fault sample_env (OpenRead sample_file) = None
      \<and> vdf_binary_load sample_env [1, 2, 3] = Inl (LibError ''SyntaxError'')"
    by (simp add: sample_world_def sample_env_def sample_load_def sample_catalogue_bytes)
  have d: "files (sample_world [8]) sample_file = Some [8]
      \<and> fs_fault ?envr (Exists sample_file) = None
      \<and> fs_fault ?envr (OpenRead sample_file) = Some (OSError ''EACCES'')"
    by (simp add: sample_world_def sample_env_def)
  have f: "fs_fault ?enve (Exists sample_file) = Some (OSError ''ENAMETOOLONG'')"
    by simp
  have k: "(if lit ''shortcuts'' \<in> set (dict_keys [(lit ''shortcuts'', VDict [])])
            then [(lit ''shortcuts'', VDict [])]
            else [(lit ''shortcuts'', VDict [])] @ [(lit ''shortcuts'', VDict [])])
           = [(lit ''shortcuts'', VDict [])]"
    by (simp add: dict_keys_def)
  show ?thesis
    using a b c d f k x
      load_shortcuts_binary_cases[of ?enve sample_file empty_world _ _ "OSError ''ENAMETOOLONG''"]
      load_shortcuts_binary_cases[of sample_env sample_file empty_world]
      load_shortcuts_binary_cases[of sample_env sample_file "sample_world ?cat" ?cat
        "[(lit ''shortcuts'', VDict [])]"]
      load_shortcuts_binary_cases[of sample_env sample_file "sample_world [1, 2, 3]" "[1, 2, 3]"
        _ "LibError ''SyntaxError''"]
      load_shortcuts_binary_cases[of ?envr sample_file "sample_world [8]" "[8]" _
        "OSError ''EACCES''"]
    by simp
qed

text \<open>
  Claim C4 as stated (the decoded document is returned) is false for a file that
  decodes to a document without the \<open>"shortcuts"\<close> key: the file holding the single
  octet 8 decodes to the empty document, and the loader returns
  \<open>{"shortcuts": {}}\<close> instead.
\<close>

theorem load_shortcuts_binary_counterexample:
  "files (sample_world [8]) sample_file = Some [8]
   \<and> vdf_binary_load sample_env [8] = Inr []
   \<and> snd (load_shortcuts_binary sample_env sample_file (sample_world [8])) =
       Inr [(lit ''shortcuts'', VDict [])]
   \<and> snd (load_shortcuts_binary sample_env sample_file (sample_world [8])) \<noteq>
       vdf_binary_load sample_env [8]"
  by (simp add: load_shortcuts_binary_def sample_world_def sample_env_def sample_load_def
      dict_keys_def dict_setdefault_def)


subsection \<open>The shortcuts key\<close>

lemma load_or_empty_has_key:
  "lit ''shortcuts'' \<in> set (dict_keys (snd (load_or_empty env p w)))"
proof (cases "load_shortcuts_binary env p w")
  case (Pair w1 r)
  show ?thesis
  proof (cases r)
    case (Inl e)
    with Pair show ?thesis by (simp add: load_or_empty_def dict_keys_def)
  next
    case (Inr d)
    with Pair have "snd (load_shortcuts_binary env p w) = Inr d" by simp
    then have "lit ''shortcuts'' \<in> set (dict_keys d)" by (rule load_shortcuts_binary_has_key)
    with Pair Inr show ?thesis by (simp add: load_or_empty_def)
  qed
qed

text \<open>
  Claim C8. Every document the system holds has the top-level \<open>"shortcuts"\<close> key: the
  document \<open>load_shortcuts_binary\<close> returns (file missing, or decoded with or without
  the key), the document \<open>add_non_steam_game\<close> continues with after its \<open>try\<close>
  around the loader, and the document after an insertion, whatever document the
  insertion started from.
\<close>

theorem shortcuts_key_always_present:
  "(snd (load_shortcuts_binary env p w) = Inr d \<longrightarrow> lit ''shortcuts'' \<in> set (dict_keys d))
   \<and> lit ''shortcuts'' \<in> set (dict_keys (snd (load_or_empty env p w)))
   \<and> (insert_entry d0 e = Inr (d1, k) \<longrightarrow> lit ''shortcuts'' \<in> set (dict_keys d1))"
  using load_shortcuts_binary_has_key[of env p w d] load_or_empty_has_key[of env p w]
    insert_entry_has_key[of d0 e d1 k]
  by blast

text \<open>
  The file that decodes to the empty document is loaded as \<open>{"shortcuts": {}}\<close>, and an
  insertion into the document \<open>{}\<close> creates the key.
\<close>

theorem shortcuts_key_always_present_witness:
  "snd (load_shortcuts_binary sample_env sample_file (sample_world [8])) =
     Inr [(lit ''shortcuts'', VDict [])]
   \<and> lit ''shortcuts'' \<in> set (dict_keys [(lit ''shortcuts'', VDict [])])
   \<and> insert_entry [] (VInt 7) = Inr ([(lit ''shortcuts'', VDict [(lit ''0'', VInt 7)])], lit ''0'')
   \<and> lit ''shortcuts'' \<in> set (dict_keys [(lit ''shortcuts'', VDict [(lit ''0'', VInt 7)])])"
proof -
  have a: "snd (load_shortcuts_binary sample_env sample_file (sample_world [8])) =
     Inr [(lit ''shortcuts'', VDict [])]"
    by (simp add: load_shortcuts_binary_def sample_world_def sample_env_def sample_load_def
      dict_keys_def dict_setdefault_def)
  have b: "insert_entry [] (VInt 7) = Inr ([(lit ''shortcuts'', VDict [(lit ''0'', VInt 7)])], lit ''0'')"
    by (simp add: insert_entry_def dict_get_def dict_setdefault_def py_str_int_def
        str_nat.simps lit_def)
  from a b
    shortcuts_key_always_present[of sample_env sample_file "sample_world [8]"
      "[(lit ''shortcuts'', VDict [])]" "[]" "VInt 7"
      "[(lit ''shortcuts'', VDict [(lit ''0'', VInt 7)])]" "lit ''0''"]
  show ?thesis by blast
qed

lemma generate_appid_digits:
  assumes "generate_appid game_name exe = Inr app_id"
  shows "\<forall>c\<in>set app_id. is_digit c"
proof -
  from assms obtain bs where "app_id = py_str_int (uint (zlib_crc32 bs OR 0x80000000))"
    by (auto simp: generate_appid_def split: sum.splits)
  then have "app_id = str_nat (unat (zlib_crc32 bs OR 0x80000000))"
    using py_str_int_nat[of "unat (zlib_crc32 bs OR 0x80000000)"] by simp
  then show ?thesis using str_nat_digits by simp
qed

lemma make_entry_twelve_fields:
  "make_entry app_id game_name exe game_path launch_options =
       [(lit ''appid'', VStr app_id),
        (lit ''appname'', VStr game_name),
        (lit ''exe'', VStr ([34] @ exe @ [34])),
        (lit ''StartDir'', VStr ([34] @ game_path @ [34])),
        (lit ''LaunchOptions'', VStr launch_options),
        (lit ''IsHidden'', VInt 0),
        (lit ''AllowDesktopConfig'', VInt 1),
        (lit ''OpenVR'', VInt 0),
        (lit ''Devkit'', VInt 0),
        (lit ''DevkitGameID'', VStr []),
        (lit ''LastPlayTime'', VInt 0),
        (lit ''tags'', VDict [])]
     \<and> length (make_entry app_id game_name exe game_path launch_options) = 12
     \<and> distinct (dict_keys (make_entry app_id game_name exe game_path launch_options))"
proof -
  have "distinct (dict_keys (make_entry app_id game_name exe game_path launch_options))"
    by (simp add: make_entry_def dict_keys_def lit_def)
  then show ?thesis by (simp add: make_entry_def quoted_def)
qed

subsection \<open>Atomic persistence writer\<close>

lemma backup_path_neq: "backup_path_of env p \<noteq> p"
proof
  assume "backup_path_of env p = p"
  then have "length (backup_path_of env p) = length p" by simp
  then show False by (simp add: backup_path_of_def path_join_def path_parent_def)
qed

lemma backup_existing_files:
  "backup_existing env p w = (w1, r) \<Longrightarrow>
     files w1 = files w \<or> (\<exists>c. files w p = Some c \<and> files w1 = (files w)(backup_path_of env p \<mapsto> c))"
  by (auto simp: backup_existing_def split: option.splits)

lemma backup_existing_keeps: "backup_existing env p w = (w1, r) \<Longrightarrow> files w1 p = files w p"
  using backup_existing_files[of env p w w1 r] backup_path_neq[of env p] by auto

lemma tmp_in_parent_neq_backup: "path_join (path_parent p) n \<noteq> backup_path_of env p"
proof
  assume "path_join (path_parent p) n = backup_path_of env p"
  then have "length (path_join (path_parent p) n) = length (backup_path_of env p)" by simp
  then show False by (simp add: backup_path_of_def path_join_def)
qed

lemma named_temporary_file_ok:
  assumes "named_temporary_file env d w = (w2, Inr t)"
  shows "\<exists>n \<in> set (tmp_names env). t = path_join d n \<and> files w t = None
           \<and> files w2 = (files w)(t \<mapsto> [])"
  using assms
proof (cases "filter (\<lambda>n. files w (path_join d n) = None) (tmp_names env)")
  case Nil
  with assms show ?thesis
    by (simp add: named_temporary_file_def split: option.splits)
next
  case (Cons n ns)
  then have "n \<in> set (filter (\<lambda>n. files w (path_join d n) = None) (tmp_names env))" by simp
  then have n: "n \<in> set (tmp_names env)" "files w (path_join d n) = None" by auto
  from assms Cons have "t = path_join d n" "files w2 = (files w)(path_join d n \<mapsto> [])"
    by (auto simp: named_temporary_file_def split: option.splits)
  with n show ?thesis by auto
qed

lemma named_temporary_file_fail:
  "named_temporary_file env d w = (w2, Inl e) \<Longrightarrow> w2 = w"
  by (auto simp: named_temporary_file_def split: option.splits list.splits)

lemma tmp_neq_canonical:
  assumes "n \<in> set (tmp_names env)" and "files w (path_join (path_parent p) n) = None"
    and "files w p \<noteq> None \<or> path_name p \<notin> set (tmp_names env)"
  shows "path_join (path_parent p) n \<noteq> p"
proof
  assume eq: "path_join (path_parent p) n = p"
  then have "p \<noteq> []" by (auto simp: path_join_def)
  then have "p = butlast p @ [last p]" by simp
  with eq have "n = last p" by (metis path_join_def path_parent_def last_snoc)
  with \<open>p \<noteq> []\<close> have "path_name p = n" by (simp add: path_name_def)
  with assms eq show False by auto
qed

lemma unlink_quietly_other: "q \<noteq> t \<Longrightarrow> files (unlink_quietly env t w) q = files w q"
  by (simp add: unlink_quietly_def split: option.splits)

lemma write_tmp_other: "write_tmp env t wc w = (w3, r) \<Longrightarrow> q \<noteq> t \<Longrightarrow> files w3 q = files w q"
  by (auto simp: write_tmp_def Let_def unlink_quietly_other split: option.splits prod.splits)

lemma replace_file_fail: "replace_file env t p w = (w4, Inl e) \<Longrightarrow> w4 = w"
  by (auto simp: replace_file_def split: option.splits)

lemma atomic_write_failure_canonical:
  assumes hyp: "files w p \<noteq> None \<or> path_name p \<notin> set (tmp_names env)"
    and fail: "snd (atomic_write_file_with_vdf env p wc w) = Inl e"
  shows "files (fst (atomic_write_file_with_vdf env p wc w)) p = files w p"
proof (cases "fs_fault env (Mkdir (path_parent p))")
  case (Some x)
  then show ?thesis by (simp add: atomic_write_file_with_vdf_def)
next
  case None
  obtain w1 r1 where b: "backup_existing env p w = (w1, r1)" by (cases "backup_existing env p w")
  have k1: "files w1 p = files w p" using b by (rule backup_existing_keeps)
  show ?thesis
  proof (cases r1)
    case (Inl x)
    with None b k1 show ?thesis by (simp add: atomic_write_file_with_vdf_def)
  next
    case (Inr u)
    obtain w2 r2 where t: "named_temporary_file env (path_parent p) w1 = (w2, r2)"
      by (cases "named_temporary_file env (path_parent p) w1")
    show ?thesis
    proof (cases r2)
      case (Inl x)
      with t have "w2 = w1" by (simp add: named_temporary_file_fail)
      with None b Inr t Inl k1 show ?thesis by (simp add: atomic_write_file_with_vdf_def)
    next
      case r2: (Inr tmp)
      from named_temporary_file_ok[OF t[unfolded r2]] obtain n where
        n: "n \<in> set (tmp_names env)" "tmp = path_join (path_parent p) n" "files w1 tmp = None"
           "files w2 = (files w1)(tmp \<mapsto> [])" by blast
      from backup_existing_files[OF b] n(2,3) tmp_in_parent_neq_backup[of p n env]
      have "files w tmp = None" by (auto split: if_splits)
      with n hyp have neq: "tmp \<noteq> p" using tmp_neq_canonical[of n env w p] by simp
      with n k1 have k2: "files w2 p = files w p" by simp
      obtain w3 r3 where wt: "write_tmp env tmp wc w2 = (w3, r3)"
        by (cases "write_tmp env tmp wc w2")
      have k3: "files w3 p = files w p" using write_tmp_other[OF wt, of p] neq k2 by simp
      show ?thesis
      proof (cases r3)
        case (Inl x)
        with None b Inr t r2 wt k3 show ?thesis by (simp add: atomic_write_file_with_vdf_def)
      next
        case r3: (Inr u3)
        obtain w4 r4 where rp: "replace_file env tmp p w3 = (w4, r4)"
          by (cases "replace_file env tmp p w3")
        show ?thesis
        proof (cases r4)
          case (Inl x)
          with rp have "w4 = w3" by (simp add: replace_file_fail)
          with None b Inr t r2 wt r3 rp Inl k3 show ?thesis
            by (simp add: atomic_write_file_with_vdf_def)
        next
          case r4: (Inr u4)
          with None b Inr t r2 wt r3 rp fail show ?thesis
            by (simp add: atomic_write_file_with_vdf_def)
        qed
      qed
    qed
  qed
qed

lemma atomic_write_writer_raises:
  assumes hyp: "files w p \<noteq> None \<or> path_name p \<notin> set (tmp_names env)"
    and mk: "fs_fault env (Mkdir (path_parent p)) = None"
    and b: "backup_existing env p w = (w1, Inr ())"
    and t: "named_temporary_file env (path_parent p) w1 = (w2, Inr tmp)"
    and op: "fs_fault env (OpenWrite tmp) = None"
    and wc: "wc = (logs, written, Some e)"
  shows "snd (atomic_write_file_with_vdf env p wc w) = Inl e"
    and "files (fst (atomic_write_file_with_vdf env p wc w)) p = files w p"
    and "fs_fault env (Unlink tmp) = None \<Longrightarrow>
           files (fst (atomic_write_file_with_vdf env p wc w)) tmp = None"
    and "fs_fault env (Unlink tmp) \<noteq> None \<Longrightarrow>
           files (fst (atomic_write_file_with_vdf env p wc w)) tmp = Some written"
proof -
  show r: "snd (atomic_write_file_with_vdf env p wc w) = Inl e"
    using mk b t op wc
    by (simp add: atomic_write_file_with_vdf_def write_tmp_def)
  show "files (fst (atomic_write_file_with_vdf env p wc w)) p = files w p"
    using atomic_write_failure_canonical[OF hyp r] .
  show "fs_fault env (Unlink tmp) = None \<Longrightarrow>
           files (fst (atomic_write_file_with_vdf env p wc w)) tmp = None"
    using mk b t op wc
    by (simp add: atomic_write_file_with_vdf_def write_tmp_def unlink_quietly_def)
  show "fs_fault env (Unlink tmp) \<noteq> None \<Longrightarrow>
           files (fst (atomic_write_file_with_vdf env p wc w)) tmp = Some written"
    using mk b t op wc
    by (auto simp: atomic_write_file_with_vdf_def write_tmp_def unlink_quietly_def)
qed


lemma named_temporary_file_total:
  assumes "fs_fault env (MkTemp d) = None"
    and "\<exists>n \<in> set (tmp_names env). files w (path_join d n) = None"
  shows "\<exists>w2 t. named_temporary_file env d w = (w2, Inr t)"
proof -
  from assms(2) have "filter (\<lambda>n. files w (path_join d n) = None) (tmp_names env) \<noteq> []"
    by (simp add: filter_empty_conv)
  then obtain n ns where "filter (\<lambda>n. files w (path_join d n) = None) (tmp_names env) = n # ns"
    by (cases "filter (\<lambda>n. files w (path_join d n) = None) (tmp_names env)") auto
  with assms(1) show ?thesis by (simp add: named_temporary_file_def)
qed

lemma atomic_write_success:
  assumes nofault: "\<forall>op. fs_fault env op = None"
    and ex: "files w p = Some old"
    and fresh: "\<exists>n \<in> set (tmp_names env). files w (path_join (path_parent p) n) = None"
    and wc: "wc = (logs, bs, None)"
  shows "snd (atomic_write_file_with_vdf env p wc w) = Inr ()
     \<and> files (fst (atomic_write_file_with_vdf env p wc w)) p = Some bs
     \<and> files (fst (atomic_write_file_with_vdf env p wc w)) (backup_path_of env p) = Some old"
proof -
  let ?bp = "backup_path_of env p"
  define w1 where "w1 = add_log INFO (BackupCreated ?bp) (w\<lparr>files := (files w)(?bp \<mapsto> old)\<rparr>)"
  have b: "backup_existing env p w = (w1, Inr ())"
    using nofault ex by (simp add: backup_existing_def w1_def)
  have f1: "files w1 = (files w)(?bp \<mapsto> old)" by (simp add: w1_def add_log_def)
  from fresh obtain n where n: "n \<in> set (tmp_names env)" "files w (path_join (path_parent p) n) = None"
    by blast
  with f1 tmp_in_parent_neq_backup[of p n env]
  have "files w1 (path_join (path_parent p) n) = None" by simp
  with n(1) have "\<exists>n \<in> set (tmp_names env). files w1 (path_join (path_parent p) n) = None" by blast
  with nofault obtain w2 t where t: "named_temporary_file env (path_parent p) w1 = (w2, Inr t)"
    using named_temporary_file_total[of env "path_parent p" w1] by auto
  from named_temporary_file_ok[OF t] obtain m where
    m: "m \<in> set (tmp_names env)" "t = path_join (path_parent p) m" "files w1 t = None"
       "files w2 = (files w1)(t \<mapsto> [])" by blast
  have tb: "t \<noteq> ?bp" using m(2) tmp_in_parent_neq_backup[of p m env] by simp
  have tp: "t \<noteq> p" using m(3) f1 ex backup_path_neq[of env p] by auto
  have pb: "p \<noteq> ?bp" using backup_path_neq[of env p] by auto
  have res: "snd (atomic_write_file_with_vdf env p wc w) = Inr ()
      \<and> files (fst (atomic_write_file_with_vdf env p wc w)) = ((files w2)(t := None))(p \<mapsto> bs)"
    using nofault b t wc
    by (simp add: atomic_write_file_with_vdf_def write_tmp_def replace_file_def add_log_def)
  then show ?thesis using m(4) f1 tb tp pb by simp
qed

lemma backup_copy_failure_nonfatal:
  assumes "files w p = Some c"
    and "fs_fault env (Exists p) = None"
    and "fs_fault env (Mkdir (path_join (path_parent p) BACKUP_DIRNAME)) = None"
    and "fs_fault env (Copy2 p (backup_path_of env p)) = Some e"
  shows "backup_existing env p w = (add_log WARNING (BackupFailed e) w, Inr ())"
  using assms by (simp add: backup_existing_def)

lemma named_temporary_file_log:
  "named_temporary_file env d w = (w2, r) \<Longrightarrow> log w2 = log w"
  by (auto simp: named_temporary_file_def split: option.splits list.splits)

lemma atomic_write_copy_failure_proceeds:
  assumes nofault: "\<forall>op. op \<noteq> Copy2 p (backup_path_of env p) \<longrightarrow> fs_fault env op = None"
    and cp: "fs_fault env (Copy2 p (backup_path_of env p)) = Some e"
    and ex: "files w p = Some old"
    and fresh: "\<exists>n \<in> set (tmp_names env). files w (path_join (path_parent p) n) = None"
    and wc: "wc = (logs, bs, None)"
  shows "snd (atomic_write_file_with_vdf env p wc w) = Inr ()
     \<and> files (fst (atomic_write_file_with_vdf env p wc w)) p = Some bs
     \<and> (WARNING, BackupFailed e) \<in> set (log (fst (atomic_write_file_with_vdf env p wc w)))
     \<and> files (fst (atomic_write_file_with_vdf env p wc w)) = (files w)(p \<mapsto> bs)"
proof -
  let ?w1 = "add_log WARNING (BackupFailed e) w"
  have b: "backup_existing env p w = (?w1, Inr ())"
    using nofault cp ex by (intro backup_copy_failure_nonfatal) auto
  from fresh have "\<exists>n \<in> set (tmp_names env). files ?w1 (path_join (path_parent p) n) = None"
    by simp
  moreover have "fs_fault env (MkTemp (path_parent p)) = None" using nofault by simp
  ultimately obtain w2 t where t: "named_temporary_file env (path_parent p) ?w1 = (w2, Inr t)"
    using named_temporary_file_total[of env "path_parent p" ?w1] by auto
  have l2: "log w2 = log w @ [(WARNING, BackupFailed e)]"
    using named_temporary_file_log[OF t] by (simp add: add_log_def)
  from named_temporary_file_ok[OF t] have
    m: "files w t = None" "files w2 = (files w)(t \<mapsto> [])" by auto
  have gone: "((files w)(t \<mapsto> []))(t := None) = files w"
    using m(1) by (auto simp: fun_eq_iff)
  have ops: "fs_fault env (Mkdir (path_parent p)) = None" "fs_fault env (OpenWrite t) = None"
    "fs_fault env (Replace t p) = None" using nofault by simp_all
  show ?thesis
    using ops b t wc l2 m(2) gone
    by (simp add: atomic_write_file_with_vdf_def write_tmp_def replace_file_def add_log_def)
qed

text \<open>
  Claim C1, amended. Let the canonical path exist, or its name be none of the names the
  temporary file can get. Then whenever \<open>atomic_write_file_with_vdf\<close> raises, for
  whatever reason, the content at the canonical path is what it was before the call.
  In particular, when the writer is reached and the callable raises \<open>e\<close> after
  writing some octets to the temporary file, the function raises \<open>e\<close>, the canonical
  path is unchanged, and the temporary file is gone provided that its \<open>unlink\<close> does
  not raise (an exception of \<open>unlink\<close> is swallowed and leaves the file behind).
\<close>

theorem atomic_write_failure_leaves_canonical:
  assumes "files w p \<noteq> None \<or> path_name p \<notin> set (tmp_names env)"
  shows "(snd (atomic_write_file_with_vdf env p wc w) = Inl e' \<longrightarrow>
            files (fst (atomic_write_file_with_vdf env p wc w)) p = files w p)
     \<and> (fs_fault env (Mkdir (path_parent p)) = None
          \<and> backup_existing env p w = (w1, Inr ())
          \<and> named_temporary_file env (path_parent p) w1 = (w2, Inr tmp)
          \<and> fs_fault env (OpenWrite tmp) = None
          \<and> wc = (logs, written, Some e) \<longrightarrow>
            snd (atomic_write_file_with_vdf env p wc w) = Inl e
          \<and> files (fst (atomic_write_file_with_vdf env p wc w)) p = files w p
          \<and> (fs_fault env (Unlink tmp) = None \<longrightarrow>
               files (fst (atomic_write_file_with_vdf env p wc w)) tmp = None))"
proof (intro conjI impI)
  assume "snd (atomic_write_file_with_vdf env p wc w) = Inl e'"
  then show "files (fst (atomic_write_file_with_vdf env p wc w)) p = files w p"
    by (rule atomic_write_failure_canonical[OF assms])
next
  assume a: "fs_fault env (Mkdir (path_parent p)) = None
          \<and> backup_existing env p w = (w1, Inr ())
          \<and> named_temporary_file env (path_parent p) w1 = (w2, Inr tmp)
          \<and> fs_fault env (OpenWrite tmp) = None
          \<and> wc = (logs, written, Some e)"
  then show "snd (atomic_write_file_with_vdf env p wc w) = Inl e"
    using atomic_write_writer_raises(1)[OF assms, of w1 w2 tmp wc logs written e] by blast
  from a show "files (fst (atomic_write_file_with_vdf env p wc w)) p = files w p"
    using atomic_write_writer_raises(2)[OF assms, of w1 w2 tmp wc logs written e] by blast
  assume "fs_fault env (Unlink tmp) = None"
  with a show "files (fst (atomic_write_file_with_vdf env p wc w)) tmp = None"
    using atomic_write_writer_raises(3)[OF assms, of w1 w2 tmp wc logs written e] by simp
qed

lemmas sample_paths =
  sample_file_def shortcuts_file_of_def path_join_def path_parent_def path_name_def
  backup_path_of_def BACKUP_DIRNAME_def lit_def

text \<open>
  On the sample environment, with the catalogue \<open>[8]\<close> in place and a callable that
  raises after writing two octets: the exception comes out, the catalogue is still
  \<open>[8]\<close>, the temporary file is gone.
\<close>

theorem atomic_write_failure_leaves_canonical_witness:
  "snd (atomic_write_file_with_vdf sample_env sample_file ([], [1, 2], Some (LibError ''boom''))
          (sample_world [8])) = Inl (LibError ''boom'')
   \<and> files (fst (atomic_write_file_with_vdf sample_env sample_file
          ([], [1, 2], Some (LibError ''boom'')) (sample_world [8]))) sample_file = Some [8]
   \<and> files (fst (atomic_write_file_with_vdf sample_env sample_file
          ([], [1, 2], Some (LibError ''boom'')) (sample_world [8])))
        (path_join (path_parent sample_file) (lit ''tmpk3x9q2ab'')) = None"
proof -
  let ?w = "sample_world [8]"
  let ?w1 = "fst (backup_existing sample_env sample_file ?w)"
  let ?tmp = "path_join (path_parent sample_file) (lit ''tmpk3x9q2ab'')"
  let ?w2 = "fst (named_temporary_file sample_env (path_parent sample_file) ?w1)"
  have f: "files ?w sample_file = Some [8]" by (simp add: sample_world_def)
  then have h: "files ?w sample_file \<noteq> None \<or> path_name sample_file \<notin> set (tmp_names sample_env)"
    by simp
  have mk: "fs_fault sample_env (Mkdir (path_parent sample_file)) = None"
    by (simp add: sample_env_def)
  have b: "backup_existing sample_env sample_file ?w = (?w1, Inr ())"
    by (simp add: backup_existing_def sample_env_def sample_world_def)
  have t: "named_temporary_file sample_env (path_parent sample_file) ?w1 = (?w2, Inr ?tmp)"
    by (simp add: named_temporary_file_def backup_existing_def sample_env_def sample_world_def
        add_log_def sample_paths)
  have op: "fs_fault sample_env (OpenWrite ?tmp) = None" "fs_fault sample_env (Unlink ?tmp) = None"
    by (simp_all add: sample_env_def)
  from atomic_write_failure_leaves_canonical[OF h,
      of "([], [1, 2], Some (LibError ''boom''))" _ ?w1 ?w2 ?tmp "[]" "[1, 2]" "LibError ''boom''"]
    f mk b t op
  show ?thesis by simp
qed

text \<open>
  Claim C1 as stated (the temporary file is deleted) is false when \<open>unlink\<close> itself
  raises, for instance while another process holds the file open: the handler swallows
  that exception and the partly written temporary file stays in the directory.
\<close>

theorem atomic_write_unlink_counterexample:
  "snd (atomic_write_file_with_vdf
          (sample_env\<lparr>fs_fault := (\<lambda>op. case op of Unlink q \<Rightarrow> Some (OSError ''EACCES'') | _ \<Rightarrow> None)\<rparr>)
          sample_file ([], [1, 2], Some (LibError ''boom'')) (sample_world [8]))
     = Inl (LibError ''boom'')
   \<and> files (fst (atomic_write_file_with_vdf
          (sample_env\<lparr>fs_fault := (\<lambda>op. case op of Unlink q \<Rightarrow> Some (OSError ''EACCES'') | _ \<Rightarrow> None)\<rparr>)
          sample_file ([], [1, 2], Some (LibError ''boom'')) (sample_world [8])))
        (path_join (path_parent sample_file) (lit ''tmpk3x9q2ab'')) = Some [1, 2]"
  by (simp add: atomic_write_file_with_vdf_def backup_existing_def named_temporary_file_def
      write_tmp_def unlink_quietly_def sample_env_def sample_world_def add_log_def
      sample_paths)

text \<open>
  Claim C5 at a failing input. A catalogue exists, and a regular file named
  \<open>backups_shortcuts\<close> sits beside it, so that \<open>backup_dir.mkdir\<close> raises
  \<open>FileExistsError\<close>. That call stands outside the \<open>try\<close> that guards the copy:
  the exception leaves \<open>atomic_write_file_with_vdf\<close>, nothing is logged and nothing
  is written, although without the backup step the write succeeds (second part: the same
  call in the environment where no operation fails).
\<close>

theorem backup_mkdir_failure_is_fatal:
  "atomic_write_file_with_vdf
      (sample_env\<lparr>fs_fault := (\<lambda>op. if op = Mkdir (path_join (path_parent sample_file) BACKUP_DIRNAME)
                                    then Some FileExistsError else None)\<rparr>)
      sample_file ([], [9], None) (sample_world [8])
     = (sample_world [8], Inl FileExistsError)
   \<and> snd (atomic_write_file_with_vdf sample_env sample_file ([], [9], None) (sample_world [8]))
       = Inr ()
   \<and> files (fst (atomic_write_file_with_vdf sample_env sample_file ([], [9], None)
         (sample_world [8]))) sample_file = Some [9]"
  by (simp add: atomic_write_file_with_vdf_def backup_existing_def named_temporary_file_def
      write_tmp_def replace_file_def sample_env_def sample_world_def add_log_def
      sample_paths)


subsection \<open>Process coordinator\<close>

lemma is_steam_running_returns: "\<exists>b. snd (is_steam_running env variant w) = Inr b"
  by (cases "is_steam_running_try env variant w")
     (auto simp: is_steam_running_def split: sum.splits)

lemma stop_steam_returns: "\<exists>b. snd (stop_steam env variant w) = Inr b"
  by (cases "stop_steam_try env variant w")
     (auto simp: stop_steam_def split: sum.splits)

lemma start_steam_returns: "\<exists>b. snd (start_steam env variant w) = Inr b"
  by (cases "start_steam_try env variant w")
     (auto simp: start_steam_def split: sum.splits)

lemma is_steam_running_caught:
  "snd (is_steam_running_try env variant w) = Inl e \<Longrightarrow>
     snd (is_steam_running env variant w) = Inr False"
  by (cases "is_steam_running_try env variant w") (auto simp: is_steam_running_def)

lemma stop_steam_caught:
  "snd (stop_steam_try env variant w) = Inl e \<Longrightarrow> snd (stop_steam env variant w) = Inr False"
  by (cases "stop_steam_try env variant w") (auto simp: stop_steam_def)

lemma start_steam_caught:
  "snd (start_steam_try env variant w) = Inl e \<Longrightarrow> snd (start_steam env variant w) = Inr False"
  by (cases "start_steam_try env variant w") (auto simp: start_steam_def)

lemma is_steam_running_probe_raises:
  assumes "\<forall>args. \<exists>e. run_proc env args = Inl e"
  shows "snd (is_steam_running env variant w) = Inr False"
proof -
  from assms obtain e1 e2 e3 where
    "run_proc env [''tasklist'', ''/FI'', ''IMAGENAME eq steam.exe''] = Inl e1"
    "run_proc env [''pgrep'', ''-f'', ''com.valvesoftware.Steam''] = Inl e2"
    "run_proc env [''pgrep'', ''-f'', ''steam''] = Inl e3" by metis
  then show ?thesis
    by (simp add: is_steam_running_def is_steam_running_try_def run_cmd_def)
qed

lemma is_steam_running_nonzero:
  assumes "variant \<noteq> ''windows''"
    and "\<forall>args r. run_proc env args = Inr r \<longrightarrow> returncode r \<noteq> 0"
  shows "snd (is_steam_running env variant w) = Inr False"
  using assms
  by (auto simp: is_steam_running_def is_steam_running_try_def run_cmd_def split: sum.splits)

lemma start_candidates_not_true:
  assumes "\<forall>args shell. popen env args shell \<noteq> None"
  shows "snd (start_candidates env ps w) \<noteq> Inr True"
proof (induction ps)
  case Nil
  from assms obtain e where "popen env [''start'', ''steam://open''] True = Some e" by auto
  then show ?case by (simp add: popen_cmd_def)
next
  case (Cons p ps)
  from assms obtain e where "popen env [p] False = Some e" by auto
  with Cons show ?case by (simp add: popen_cmd_def split: sum.splits bool.splits)
qed

lemma popen_cmd_raises:
  assumes "\<forall>args shell. popen env args shell \<noteq> None"
  shows "\<exists>e. snd (popen_cmd env args shell w) = Inl e"
proof -
  from assms obtain e where "popen env args shell = Some e" by auto
  then show ?thesis by (simp add: popen_cmd_def)
qed

lemma start_steam_try_not_true:
  assumes "\<forall>args shell. popen env args shell \<noteq> None"
  shows "snd (start_steam_try env variant w) \<noteq> Inr True"
proof -
  note p = popen_cmd_raises[OF assms]
  consider (win) "variant = ''windows''" | (flat) "variant = ''linux_flatpak''"
    | (nat) "variant = ''linux_native''" | (dar) "variant = ''darwin_native''"
    | (other) "variant \<notin> {''windows'', ''linux_flatpak'', ''linux_native'', ''darwin_native''}"
    by auto
  then show ?thesis
  proof cases
    case win
    then show ?thesis
      using start_candidates_not_true[OF assms, of windows_candidates w]
      by (simp add: start_steam_try_def)
  next
    case flat
    obtain w1 r where c: "popen_cmd env [''flatpak'', ''run'', ''com.valvesoftware.Steam''] False w = (w1, r)"
      by (cases "popen_cmd env [''flatpak'', ''run'', ''com.valvesoftware.Steam''] False w")
    with p[of "[''flatpak'', ''run'', ''com.valvesoftware.Steam'']" False w]
    obtain e where "r = Inl e" by auto
    with flat c show ?thesis by (simp add: start_steam_try_def)
  next
    case nat
    show ?thesis
    proof (cases "steam_cmd_of env")
      case None
      show ?thesis
      proof (cases "home_steam_sh env")
        case (Inl x)
        with nat None show ?thesis by (simp add: start_steam_try_def)
      next
        case (Inr local_sh)
        obtain w1 r where c: "popen_cmd env [local_sh] False w = (w1, r)"
          by (cases "popen_cmd env [local_sh] False w")
        with p[of "[local_sh]" False w] obtain e where "r = Inl e" by auto
        with nat None Inr c show ?thesis
          by (simp add: start_steam_try_def split: sum.splits bool.splits)
      qed
    next
      case (Some cmd)
      obtain w1 r where c: "popen_cmd env [cmd] False w = (w1, r)"
        by (cases "popen_cmd env [cmd] False w")
      with p[of "[cmd]" False w] obtain e where "r = Inl e" by auto
      with nat Some c show ?thesis by (simp add: start_steam_try_def)
    qed
  next
    case dar
    obtain w1 r where c: "popen_cmd env [''open'', ''-a'', ''Steam''] False w = (w1, r)"
      by (cases "popen_cmd env [''open'', ''-a'', ''Steam''] False w")
    with p[of "[''open'', ''-a'', ''Steam'']" False w] obtain e where "r = Inl e" by auto
    with dar c show ?thesis by (simp add: start_steam_try_def)
  next
    case other
    then show ?thesis by (simp add: start_steam_try_def)
  qed
qed

lemma start_steam_popen_raises:
  assumes "\<forall>args shell. popen env args shell \<noteq> None"
  shows "snd (start_steam env variant w) = Inr False"
proof -
  obtain w1 r where t: "start_steam_try env variant w = (w1, r)"
    by (cases "start_steam_try env variant w")
  with start_steam_try_not_true[OF assms, of variant w] have "r \<noteq> Inr True" by simp
  with t show ?thesis by (cases r) (auto simp: start_steam_def)
qed

text \<open>
  Claim C7. For every variant string, environment and world, \<open>is_steam_running\<close>,
  \<open>stop_steam\<close> and \<open>start_steam\<close> return a boolean and raise nothing. Whenever the
  \<open>try\<close> block of one of them raises, the function returns \<open>False\<close>; in particular
  \<open>is_steam_running\<close> returns \<open>False\<close> when the probe cannot be run and, for the
  \<open>pgrep\<close> probes, when the probe exits with a status other than 0, and
  \<open>start_steam\<close> returns \<open>False\<close> when no launch command can be started.
\<close>

theorem process_control_never_raises:
  "(\<exists>b. snd (is_steam_running env variant w) = Inr b)
   \<and> (\<exists>b. snd (stop_steam env variant w) = Inr b)
   \<and> (\<exists>b. snd (start_steam env variant w) = Inr b)
   \<and> (snd (is_steam_running_try env variant w) = Inl e \<longrightarrow>
        snd (is_steam_running env variant w) = Inr False)
   \<and> (snd (stop_steam_try env variant w) = Inl e \<longrightarrow>
        snd (stop_steam env variant w) = Inr False)
   \<and> (snd (start_steam_try env variant w) = Inl e \<longrightarrow>
        snd (start_steam env variant w) = Inr False)
   \<and> ((\<forall>args. \<exists>x. run_proc env args = Inl x) \<longrightarrow>
        snd (is_steam_running env variant w) = Inr False)
   \<and> (variant \<noteq> ''windows'' \<and> (\<forall>args r. run_proc env args = Inr r \<longrightarrow> returncode r \<noteq> 0) \<longrightarrow>
        snd (is_steam_running env variant w) = Inr False)
   \<and> ((\<forall>args shell. popen env args shell \<noteq> None) \<longrightarrow>
        snd (start_steam env variant w) = Inr False)"
  using is_steam_running_returns[of env variant w] stop_steam_returns[of env variant w]
    start_steam_returns[of env variant w] is_steam_running_caught[of env variant w e]
    stop_steam_caught[of env variant w e] start_steam_caught[of env variant w e]
    is_steam_running_probe_raises[of env variant w] is_steam_running_nonzero[of variant env w]
    start_steam_popen_raises[of env variant w]
  by blast

text \<open>
  A host where no command can be run at all (every \<open>subprocess\<close> call raises
  \<open>FileNotFoundError\<close>): the three functions return \<open>False\<close> for the Flatpak variant.
\<close>

theorem process_control_never_raises_witness:
  "snd (is_steam_running
          (sample_env\<lparr>run_proc := (\<lambda>args. Inl FileNotFoundError),
                       popen := (\<lambda>args shell. Some FileNotFoundError)\<rparr>)
          ''linux_flatpak'' empty_world) = Inr False
   \<and> snd (stop_steam
          (sample_env\<lparr>run_proc := (\<lambda>args. Inl FileNotFoundError),
                       popen := (\<lambda>args shell. Some FileNotFoundError)\<rparr>)
          ''linux_flatpak'' empty_world) = Inr False
   \<and> snd (start_steam
          (sample_env\<lparr>run_proc := (\<lambda>args. Inl FileNotFoundError),
                       popen := (\<lambda>args shell. Some FileNotFoundError)\<rparr>)
          ''linux_flatpak'' empty_world) = Inr False"
proof -
  let ?env = "sample_env\<lparr>run_proc := (\<lambda>args. Inl FileNotFoundError),
                       popen := (\<lambda>args shell. Some FileNotFoundError)\<rparr>"
  have r: "\<forall>args. \<exists>x. run_proc ?env args = Inl x" by simp
  have p: "\<forall>args shell. popen ?env args shell \<noteq> None" by simp
  have s: "snd (stop_steam_try ?env ''linux_flatpak'' empty_world) = Inl FileNotFoundError"
    by (simp add: stop_steam_try_def run_cmd_def)
  from process_control_never_raises[of ?env "''linux_flatpak''" empty_world FileNotFoundError] r p s
  show ?thesis by blast
qed


lemma procs_add_log [simp]: "procs (add_log l m w) = procs w"
  by (simp add: add_log_def)

lemma procs_add_proc [simp]: "procs (add_proc ev w) = procs w @ [ev]"
  by (simp add: add_proc_def)









subsection \<open>Orchestrator\<close>

lemma run_cmd_files [simp]: "files (fst (run_cmd env args w)) = files w"
  by (simp add: run_cmd_def)

lemma popen_cmd_files [simp]: "files (fst (popen_cmd env args shell w)) = files w"
  by (simp add: popen_cmd_def)

lemma detect_steam_variant_files: "files (fst (detect_steam_variant env w)) = files w"
  by (auto simp: detect_steam_variant_def run_cmd_def split: sum.splits prod.splits)

lemma is_steam_running_files: "files (fst (is_steam_running env variant w)) = files w"
  by (auto simp: is_steam_running_def is_steam_running_try_def run_cmd_def
      split: sum.splits prod.splits)

lemma stop_steam_files: "files (fst (stop_steam env variant w)) = files w"
  by (auto simp: stop_steam_def stop_steam_try_def run_cmd_def split: sum.splits prod.splits)

lemma start_candidates_files: "files (fst (start_candidates env ps w)) = files w"
  by (induction ps)
     (auto simp: popen_cmd_def split: sum.splits prod.splits option.splits bool.splits)

lemma start_steam_try_files: "files (fst (start_steam_try env variant w)) = files w"
  by (auto simp: start_steam_try_def start_candidates_files popen_cmd_def
      split: sum.splits prod.splits option.splits bool.splits)

lemma start_steam_files: "files (fst (start_steam env variant w)) = files w"
  using start_steam_try_files[of env variant w]
  by (cases "start_steam_try env variant w") (auto simp: start_steam_def split: sum.splits)

lemma stop_wait_start_ok:
  "files (fst (stop_wait_start env variant w)) = files w
   \<and> (\<exists>b. snd (stop_wait_start env variant w) = Inr (variant, b))"
proof -
  let ?wa = "add_log INFO (StoppingSteam variant) w"
  obtain w1 r1 where s: "stop_steam env variant ?wa = (w1, r1)"
    by (cases "stop_steam env variant ?wa")
  from stop_steam_returns[of env variant ?wa] s obtain stopped where r1: "r1 = Inr stopped" by auto
  from stop_steam_files[of env variant ?wa] s have f1: "files w1 = files w" by simp
  let ?wb = "add_log INFO (StartingSteam variant) (add_proc (Sleep 1500) w1)"
  obtain w2 r2 where t: "start_steam env variant ?wb = (w2, r2)"
    by (cases "start_steam env variant ?wb")
  from start_steam_returns[of env variant ?wb] t obtain started where r2: "r2 = Inr started" by auto
  from start_steam_files[of env variant ?wb] t f1 have f2: "files w2 = files w" by simp
  from s r1 t r2 f2 show ?thesis by (simp add: stop_wait_start_def)
qed

lemma detect_steam_variant_result:
  "snd (detect_steam_variant env w) = snd (detect_steam_variant env w')"
  by (simp add: detect_steam_variant_def run_cmd_def split: sum.splits)

lemma restart_without_prompt_files:
  "files (fst (restart_steam_if_running env False allow w)) = files w"
proof -
  obtain w1 dres where d: "detect_steam_variant env w = (w1, dres)"
    by (cases "detect_steam_variant env w")
  from detect_steam_variant_files[of env w] d have f1: "files w1 = files w" by simp
  show ?thesis
  proof (cases dres)
    case (Inl e)
    with d f1 show ?thesis by (simp add: restart_steam_if_running_def)
  next
    case (Inr variant)
    obtain w2 r where p: "is_steam_running env variant w1 = (w2, r)"
      by (cases "is_steam_running env variant w1")
    from is_steam_running_files[of env variant w1] p f1 have f2: "files w2 = files w" by simp
    from stop_wait_start_ok[of env variant w2] f2 d Inr p show ?thesis
      by (auto simp: restart_steam_if_running_def split: sum.splits)
  qed
qed

lemma restart_without_prompt_returns:
  assumes "snd (detect_steam_variant env w0) = Inr variant"
  shows "\<exists>b. snd (restart_steam_if_running env False allow w) = Inr (variant, b)"
proof -
  obtain w1 dres where d: "detect_steam_variant env w = (w1, dres)"
    by (cases "detect_steam_variant env w")
  with assms detect_steam_variant_result[of env w w0] have dr: "dres = Inr variant" by simp
  obtain w2 r where p: "is_steam_running env variant w1 = (w2, r)"
    by (cases "is_steam_running env variant w1")
  from is_steam_running_returns[of env variant w1] p obtain running where r: "r = Inr running"
    by auto
  from stop_wait_start_ok[of env variant w2] d dr p r show ?thesis
    by (auto simp: restart_steam_if_running_def)
qed

lemma fetch_artwork_files: "files (fst (fetch_artwork env a n u w)) = files w"
  by (auto simp: fetch_artwork_def split: sum.splits option.splits)

lemma load_shortcuts_binary_files: "files (fst (load_shortcuts_binary env p w)) = files w"
  by (auto simp: load_shortcuts_binary_def split: sum.splits option.splits)

lemma load_or_empty_files: "files (fst (load_or_empty env p w)) = files w"
  using load_shortcuts_binary_files[of env p w]
  by (cases "load_shortcuts_binary env p w") (auto simp: load_or_empty_def split: sum.splits)

lemma load_or_empty_undecodable:
  assumes "files w p = Some old"
    and "vdf_binary_load env old = Inl e \<or> fs_fault env (OpenRead p) \<noteq> None"
  shows "snd (load_or_empty env p w) = [(lit ''shortcuts'', VDict [])]"
  using assms
  by (auto simp: load_or_empty_def load_shortcuts_binary_def split: sum.splits option.splits)

lemma write_catalogue_writes:
  assumes det: "snd (detect_steam_variant env w0) = Inr variant"
    and nofault: "\<forall>op. op \<noteq> Copy2 p (backup_path_of env p) \<longrightarrow> fs_fault env op = None"
    and ex: "files w p = Some old"
    and fresh: "\<exists>n \<in> set (tmp_names env). files w (path_join (path_parent p) n) = None"
    and wr: "writer env doc = (logs, bs, None)"
  shows "snd (write_catalogue env p doc w) = Inr ()
     \<and> files (fst (write_catalogue env p doc w)) p = Some bs
     \<and> (fs_fault env (Copy2 p (backup_path_of env p)) = None \<longrightarrow>
          files (fst (write_catalogue env p doc w)) (backup_path_of env p) = Some old)
     \<and> (\<forall>x. fs_fault env (Copy2 p (backup_path_of env p)) = Some x \<longrightarrow>
          files (fst (write_catalogue env p doc w)) = (files w)(p \<mapsto> bs)
          \<and> (WARNING, BackupFailed x) \<in> set (log (fst (write_catalogue env p doc w))))"
proof -
  obtain w1 r where rs: "restart_steam_if_running env False True w = (w1, r)"
    by (cases "restart_steam_if_running env False True w")
  from restart_without_prompt_returns[OF det, of True w] rs obtain b where
    r: "r = Inr (variant, b)" by auto
  from restart_without_prompt_files[of env True w] rs have f1: "files w1 = files w" by simp
  let ?w1 = "if b then add_proc (Sleep 2000) (add_log INFO (SteamRestarted variant) w1) else w1"
  have f: "files ?w1 = files w" using f1 by simp
  have ex1: "files ?w1 p = Some old" using ex f by simp
  have fresh1: "\<exists>n \<in> set (tmp_names env). files ?w1 (path_join (path_parent p) n) = None"
    using fresh f by simp
  obtain w2 r2 where aw: "atomic_write_file_with_vdf env p (writer env doc) ?w1 = (w2, r2)"
    by (cases "atomic_write_file_with_vdf env p (writer env doc) ?w1")
  have wc: "write_catalogue env p doc w =
      (case r2 of Inl e \<Rightarrow> (w2, Inl e) | Inr u \<Rightarrow> (add_log INFO (VdfWritten p) w2, Inr ()))"
    using rs r aw by (simp add: write_catalogue_def dump_shortcuts_binary_def)
  show ?thesis
  proof (cases "fs_fault env (Copy2 p (backup_path_of env p))")
    case None
    with nofault have all: "\<forall>op. fs_fault env op = None" by metis
    from atomic_write_success[OF all ex1 fresh1 wr] aw
    have "r2 = Inr ()" "files w2 p = Some bs" "files w2 (backup_path_of env p) = Some old"
      by simp_all
    with wc None show ?thesis by simp
  next
    case (Some x)
    from atomic_write_copy_failure_proceeds[OF nofault Some ex1 fresh1 wr] aw f
    have "r2 = Inr ()" "files w2 p = Some bs" "(WARNING, BackupFailed x) \<in> set (log w2)"
      "files w2 = (files w)(p \<mapsto> bs)"
      by simp_all
    with wc Some show ?thesis by (simp add: add_log_def)
  qed
qed

lemma str_nat_0: "str_nat 0 = lit ''0''"
  by (simp add: str_nat.simps lit_def)

lemma add_non_steam_game_undecodable:
  assumes xu: "expanduser env game_exe_path = Inr exe"
    and exe: "exe_exists env exe = Inr True"
    and id: "generate_appid game_name exe = Inr app_id"
    and art: "snd (fetch_artwork env app_id game_name user_id w) = Inr ()"
    and old: "files w (shortcuts_file_of steam_dir user_id) = Some old"
    and bad: "vdf_binary_load env old = Inl e"
    and det: "snd (detect_steam_variant env w) = Inr variant"
    and nofault: "\<forall>op. op \<noteq> Copy2 (shortcuts_file_of steam_dir user_id)
                              (backup_path_of env (shortcuts_file_of steam_dir user_id)) \<longrightarrow>
                    fs_fault env op = None"
    and fresh: "\<exists>n \<in> set (tmp_names env).
        files w (path_join (path_parent (shortcuts_file_of steam_dir user_id)) n) = None"
    and wr: "writer env
        [(lit ''shortcuts'',
          VDict [(lit ''0'',
                  VDict (make_entry app_id game_name exe (parent_str env exe) launch_options))])]
        = (logs, bs, None)"
  shows "snd (add_non_steam_game env steam_dir game_exe_path game_name user_id launch_options w)
       = Inr [(lit ''status'', VStr (lit ''success'')), (lit ''app_id'', VStr app_id)]
     \<and> files (fst (add_non_steam_game env steam_dir game_exe_path game_name user_id
                      launch_options w))
         (shortcuts_file_of steam_dir user_id) = Some bs
     \<and> (fs_fault env (Copy2 (shortcuts_file_of steam_dir user_id)
                         (backup_path_of env (shortcuts_file_of steam_dir user_id))) = None \<longrightarrow>
          files (fst (add_non_steam_game env steam_dir game_exe_path game_name user_id
                        launch_options w))
            (backup_path_of env (shortcuts_file_of steam_dir user_id)) = Some old)
     \<and> (\<forall>x. fs_fault env (Copy2 (shortcuts_file_of steam_dir user_id)
                         (backup_path_of env (shortcuts_file_of steam_dir user_id))) = Some x \<longrightarrow>
          files (fst (add_non_steam_game env steam_dir game_exe_path game_name user_id
                        launch_options w))
            = (files w)(shortcuts_file_of steam_dir user_id \<mapsto> bs)
          \<and> (WARNING, BackupFailed x) \<in>
              set (log (fst (add_non_steam_game env steam_dir game_exe_path game_name user_id
                               launch_options w))))"
proof -
  let ?sf = "shortcuts_file_of steam_dir user_id"
  let ?entry = "VDict (make_entry app_id game_name exe (parent_str env exe) launch_options)"
  let ?doc = "[(lit ''shortcuts'', VDict [(lit ''0'', ?entry)])]"
  obtain w1 r1 where fa: "fetch_artwork env app_id game_name user_id w = (w1, r1)"
    by (cases "fetch_artwork env app_id game_name user_id w")
  with art have r1: "r1 = Inr ()" by simp
  from fetch_artwork_files[of env app_id game_name user_id w] fa have f1: "files w1 = files w"
    by simp
  obtain w2 d where le: "load_or_empty env ?sf w1 = (w2, d)"
    by (cases "load_or_empty env ?sf w1")
  have old1: "files w1 ?sf = Some old" using old f1 by simp
  from load_or_empty_undecodable[OF old1, of env e] bad le
  have d: "d = [(lit ''shortcuts'', VDict [])]" by simp
  from load_or_empty_files[of env ?sf w1] le f1 have f2: "files w2 = files w" by simp
  have ins: "insert_entry d ?entry = Inr (?doc, lit ''0'')"
    unfolding d using insert_entry_single[of "[]" ?entry] by (simp add: str_nat_0)
  have old2: "files w2 ?sf = Some old" using old f2 by simp
  have fresh2: "\<exists>n \<in> set (tmp_names env). files w2 (path_join (path_parent ?sf) n) = None"
    using fresh f2 by simp
  note wcs = write_catalogue_writes[OF det nofault old2 fresh2 wr]
  obtain w3 r3 where wc: "write_catalogue env ?sf ?doc w2 = (w3, r3)"
    by (cases "write_catalogue env ?sf ?doc w2")
  with wcs have r3: "r3 = Inr ()" and f3: "files w3 ?sf = Some bs"
    and f4: "fs_fault env (Copy2 ?sf (backup_path_of env ?sf)) = None \<longrightarrow>
             files w3 (backup_path_of env ?sf) = Some old"
    and f5: "\<forall>x. fs_fault env (Copy2 ?sf (backup_path_of env ?sf)) = Some x \<longrightarrow>
             files w3 = (files w2)(?sf \<mapsto> bs) \<and> (WARNING, BackupFailed x) \<in> set (log w3)"
    by simp_all
  have res: "add_non_steam_game env steam_dir game_exe_path game_name user_id launch_options w =
      (add_log INFO (GameAdded game_name app_id user_id) w3,
       Inr [(lit ''status'', VStr (lit ''success'')), (lit ''app_id'', VStr app_id)])"
    using xu exe id fa r1 le ins wc r3 by (simp add: add_non_steam_game_def)
  show ?thesis unfolding res using f3 f4 f5 f2 by (simp add: add_log_def)
qed


lemma sample_world_file:
  "files (sample_world bs) (shortcuts_file_of [lit ''userdata''] (lit ''42'')) = Some bs"
  by (simp add: sample_world_def sample_file_def)

lemma sample_env_faults: "sample_env\<lparr>fs_fault := (\<lambda>op. None)\<rparr> = sample_env"
  by (simp add: sample_env_def)

lemma sample_faulty_facts:
  "expanduser (sample_env\<lparr>fs_fault := f\<rparr>) (lit ''/games/foo/run.bin'')
     = Inr (lit ''/games/foo/run.bin'')"
  "exe_exists (sample_env\<lparr>fs_fault := f\<rparr>) (lit ''/games/foo/run.bin'') = Inr True"
  "parent_str (sample_env\<lparr>fs_fault := f\<rparr>) (lit ''/games/foo/run.bin'') = lit ''/games/foo''"
  "snd (fetch_artwork (sample_env\<lparr>fs_fault := f\<rparr>) a (lit ''Foo Game'') (lit ''42'') w) = Inr ()"
  "vdf_binary_load (sample_env\<lparr>fs_fault := f\<rparr>) [1, 2, 3] = Inl (LibError ''SyntaxError'')"
  "snd (detect_steam_variant (sample_env\<lparr>fs_fault := f\<rparr>) w) = Inr ''linux_native''"
  "\<exists>n \<in> set (tmp_names (sample_env\<lparr>fs_fault := f\<rparr>)).
      files (sample_world bs)
        (path_join (path_parent (shortcuts_file_of [lit ''userdata''] (lit ''42''))) n) = None"
  "writer (sample_env\<lparr>fs_fault := f\<rparr>) doc
     = ([(DEBUG, DumpTypeError TypeError)], fst (sample_dump doc), None)"
  "backup_path_of (sample_env\<lparr>fs_fault := f\<rparr>) (shortcuts_file_of [lit ''userdata''] (lit ''42'')) =
      [lit ''userdata'', lit ''42'', lit ''config'', lit ''backups_shortcuts'',
         lit ''shortcuts.vdf.bak.20240101-120000'']"
  by (simp_all add: sample_env_def sample_world_def sample_file_def fetch_artwork_def
      sample_load_def sample_catalogue_bytes detect_steam_variant_def detect_native_def
      which_truthy_def startswith_def writer_def sample_dump_def sample_paths)

lemmas sample_add_facts =
  sample_faulty_facts[where f = "\<lambda>op. None", unfolded sample_env_faults]



subsection \<open>The entry that the add operation inserts\<close>

lemma atomic_write_returns:
  assumes "atomic_write_file_with_vdf env p wc w = (w', Inr u)"
  shows "\<exists>logs bs. wc = (logs, bs, None) \<and> files w' p = Some bs"
proof -
  obtain logs bs raised where wc: "wc = (logs, bs, raised)" by (cases wc) auto
  from assms obtain w1 where b: "backup_existing env p w = (w1, Inr ())"
    by (auto simp: atomic_write_file_with_vdf_def split: option.splits prod.splits sum.splits)
  from assms b obtain w2 t where t: "named_temporary_file env (path_parent p) w1 = (w2, Inr t)"
    by (auto simp: atomic_write_file_with_vdf_def split: option.splits prod.splits sum.splits)
  from assms b t obtain w3 where wt: "write_tmp env t wc w2 = (w3, Inr ())"
    by (auto simp: atomic_write_file_with_vdf_def split: option.splits prod.splits sum.splits)
  from wt wc have raised: "raised = None" and f3: "files w3 t = Some bs"
    by (auto simp: write_tmp_def Let_def split: option.splits)
  from assms b t wt obtain w4 where rp: "replace_file env t p w3 = (w4, Inr ())"
    and w': "w' = add_log DEBUG (AtomicWriteDone p) w4"
    by (auto simp: atomic_write_file_with_vdf_def split: option.splits prod.splits sum.splits)
  from rp f3 have "files w4 p = Some bs"
    by (auto simp: replace_file_def split: option.splits)
  with w' wc raised show ?thesis by simp
qed

lemma write_catalogue_returns:
  assumes "write_catalogue env p doc w = (w', Inr u)"
  shows "\<exists>logs bs. writer env doc = (logs, bs, None) \<and> files w' p = Some bs"
proof -
  obtain w1 r where rs: "restart_steam_if_running env False True w = (w1, r)"
    by (cases "restart_steam_if_running env False True w")
  with assms obtain variant restarted where r: "r = Inr (variant, restarted)"
    by (cases r) (auto simp: write_catalogue_def)
  let ?w1 = "if restarted then add_proc (Sleep 2000) (add_log INFO (SteamRestarted variant) w1)
             else w1"
  obtain w2 r2 where aw: "atomic_write_file_with_vdf env p (writer env doc) ?w1 = (w2, r2)"
    by (cases "atomic_write_file_with_vdf env p (writer env doc) ?w1")
  from assms rs r aw obtain u2 where r2: "r2 = Inr u2" and w': "w' = add_log INFO (VdfWritten p) w2"
    by (cases r2) (auto simp: write_catalogue_def dump_shortcuts_binary_def)
  from atomic_write_returns[OF aw[unfolded r2]] w' show ?thesis by simp
qed

lemma insert_entry_lookup:
  assumes "insert_entry d e = Inr (d', k)"
  shows "\<exists>inner. dict_get d' (lit ''shortcuts'') (VDict []) = VDict inner
           \<and> map_of inner k = Some e"
proof -
  obtain d1 v where sd: "dict_setdefault d (lit ''shortcuts'') (VDict []) = (d1, v)"
    by (cases "dict_setdefault d (lit ''shortcuts'') (VDict [])")
  from assms sd obtain idx v' where
    k: "k = py_str_int (int idx)" and si: "py_setitem v k e = Inr v'"
    and d': "d' = AList.update (lit ''shortcuts'') v' d1"
    by (auto simp: insert_entry_def split: sum.splits)
  from si obtain inner0 where "v = VDict inner0" and v': "v' = VDict (AList.update k e inner0)"
    by (cases v) auto
  have "dict_get d' (lit ''shortcuts'') (VDict []) = v'"
    unfolding d' by (simp add: dict_get_def update_conv')
  moreover have "map_of (AList.update k e inner0) k = Some e" by (simp add: update_conv')
  ultimately show ?thesis using v' by simp
qed

lemma add_non_steam_game_returns:
  assumes "add_non_steam_game env steam_dir game_exe_path game_name user_id launch_options w
             = (w', Inr r)"
  shows "\<exists>exe app_id shortcuts doc idx logs bs.
       expanduser env game_exe_path = Inr exe
     \<and> exe_exists env exe = Inr True
     \<and> generate_appid game_name exe = Inr app_id
     \<and> insert_entry shortcuts
           (VDict (make_entry app_id game_name exe (parent_str env exe) launch_options))
         = Inr (doc, idx)
     \<and> writer env doc = (logs, bs, None)
     \<and> files w' (shortcuts_file_of steam_dir user_id) = Some bs
     \<and> r = [(lit ''status'', VStr (lit ''success'')), (lit ''app_id'', VStr app_id)]"
proof -
  let ?sf = "shortcuts_file_of steam_dir user_id"
  from assms obtain exe where xu: "expanduser env game_exe_path = Inr exe"
    by (cases "expanduser env game_exe_path") (auto simp: add_non_steam_game_def)
  from assms xu have ex: "exe_exists env exe = Inr True"
    by (cases "exe_exists env exe") (auto simp: add_non_steam_game_def split: bool.splits)
  from assms xu ex obtain app_id where id: "generate_appid game_name exe = Inr app_id"
    by (cases "generate_appid game_name exe") (auto simp: add_non_steam_game_def)
  obtain w1 r1 where fa: "fetch_artwork env app_id game_name user_id w = (w1, r1)"
    by (cases "fetch_artwork env app_id game_name user_id w")
  from assms xu ex id fa obtain u1 where r1: "r1 = Inr u1"
    by (cases r1) (auto simp: add_non_steam_game_def)
  obtain w2 shortcuts where le: "load_or_empty env ?sf w1 = (w2, shortcuts)"
    by (cases "load_or_empty env ?sf w1")
  let ?entry = "VDict (make_entry app_id game_name exe (parent_str env exe) launch_options)"
  from assms xu ex id fa r1 le obtain doc idx where ins: "insert_entry shortcuts ?entry = Inr (doc, idx)"
    by (cases "insert_entry shortcuts ?entry") (auto simp: add_non_steam_game_def)
  obtain w3 r3 where wc: "write_catalogue env ?sf doc w2 = (w3, r3)"
    by (cases "write_catalogue env ?sf doc w2")
  from assms xu ex id fa r1 le ins wc obtain u3 where r3: "r3 = Inr u3"
    and w': "w' = add_log INFO (GameAdded game_name app_id user_id) w3"
    and r: "r = [(lit ''status'', VStr (lit ''success'')), (lit ''app_id'', VStr app_id)]"
    by (cases r3) (auto simp: add_non_steam_game_def)
  from write_catalogue_returns[OF wc[unfolded r3]] obtain logs bs where
    "writer env doc = (logs, bs, None)" "files w3 ?sf = Some bs" by blast
  with xu ex id ins w' r show ?thesis by auto
qed

text \<open>
  Claim C9. Whenever \<open>add_non_steam_game\<close> returns, the file at the canonical path
  holds what the serialiser wrote for a document \<open>doc\<close> in which the \<open>"shortcuts"\<close>
  mapping binds the key given to the new entry to an entry of exactly twelve fields,
  in this order and under these keys: \<open>appid\<close> (the generated id, a string of decimal
  digits, the one returned to the caller), \<open>appname\<close> (the name), \<open>exe\<close> and
  \<open>StartDir\<close> (the expanded executable path and its directory, each between double
  quotes), \<open>LaunchOptions\<close> (the options as given, possibly empty), the integer
  flags \<open>IsHidden = 0\<close>, \<open>AllowDesktopConfig = 1\<close>, \<open>OpenVR = 0\<close>,
  \<open>Devkit = 0\<close>, then \<open>DevkitGameID\<close> (the empty string), \<open>LastPlayTime = 0\<close>
  and \<open>tags\<close> (the empty mapping).
\<close>

theorem add_non_steam_game_entry_fields:
  assumes "add_non_steam_game env steam_dir game_exe_path game_name user_id launch_options w
             = (w', Inr r)"
  shows "\<exists>exe app_id doc inner idx logs bs.
       expanduser env game_exe_path = Inr exe
     \<and> generate_appid game_name exe = Inr app_id
     \<and> (\<forall>c\<in>set app_id. is_digit c)
     \<and> r = [(lit ''status'', VStr (lit ''success'')), (lit ''app_id'', VStr app_id)]
     \<and> writer env doc = (logs, bs, None)
     \<and> files w' (shortcuts_file_of steam_dir user_id) = Some bs
     \<and> dict_get doc (lit ''shortcuts'') (VDict []) = VDict inner
     \<and> map_of inner idx =
         Some (VDict
           [(lit ''appid'', VStr app_id),
            (lit ''appname'', VStr game_name),
            (lit ''exe'', VStr ([34] @ exe @ [34])),
            (lit ''StartDir'', VStr ([34] @ parent_str env exe @ [34])),
            (lit ''LaunchOptions'', VStr launch_options),
            (lit ''IsHidden'', VInt 0),
            (lit ''AllowDesktopConfig'', VInt 1),
            (lit ''OpenVR'', VInt 0),
            (lit ''Devkit'', VInt 0),
            (lit ''DevkitGameID'', VStr []),
            (lit ''LastPlayTime'', VInt 0),
            (lit ''tags'', VDict [])])"
proof -
  from add_non_steam_game_returns[OF assms] obtain exe app_id shortcuts doc idx logs bs where
    xu: "expanduser env game_exe_path = Inr exe"
    and id: "generate_appid game_name exe = Inr app_id"
    and ins: "insert_entry shortcuts
           (VDict (make_entry app_id game_name exe (parent_str env exe) launch_options))
         = Inr (doc, idx)"
    and wr: "writer env doc = (logs, bs, None)"
    and f: "files w' (shortcuts_file_of steam_dir user_id) = Some bs"
    and r: "r = [(lit ''status'', VStr (lit ''success'')), (lit ''app_id'', VStr app_id)]"
    by blast
  from insert_entry_lookup[OF ins] obtain inner where
    g: "dict_get doc (lit ''shortcuts'') (VDict []) = VDict inner"
    and m: "map_of inner idx =
       Some (VDict (make_entry app_id game_name exe (parent_str env exe) launch_options))"
    by blast
  note fields = make_entry_twelve_fields[of app_id game_name exe "parent_str env exe"
      launch_options, THEN conjunct1]
  from xu id generate_appid_digits[OF id] r wr f g m[unfolded fields] show ?thesis
    by blast
qed

text \<open>
  On the sample host the game \<open>Foo Game\<close> at \<open>/games/foo/run.bin\<close> is added over
  an undecodable catalogue: the call returns, and the file then holds the serialisation
  of a document whose \<open>"shortcuts"\<close> mapping has the entry below.
\<close>

theorem add_non_steam_game_entry_fields_witness:
  "snd (add_non_steam_game sample_env [lit ''userdata''] (lit ''/games/foo/run.bin'')
          (lit ''Foo Game'') (lit ''42'') [] (sample_world [1, 2, 3]))
     = Inr [(lit ''status'', VStr (lit ''success'')), (lit ''app_id'', VStr (lit ''2792489181''))]
   \<and> (\<exists>doc inner idx.
        files (fst (add_non_steam_game sample_env [lit ''userdata''] (lit ''/games/foo/run.bin'')
                 (lit ''Foo Game'') (lit ''42'') [] (sample_world [1, 2, 3]))) sample_file
          = Some (fst (sample_dump doc))
      \<and> dict_get doc (lit ''shortcuts'') (VDict []) = VDict inner
      \<and> map_of inner idx =
          Some (VDict
            [(lit ''appid'', VStr (lit ''2792489181'')),
             (lit ''appname'', VStr (lit ''Foo Game'')),
             (lit ''exe'', VStr (lit ''\"/games/foo/run.bin\"'')),
             (lit ''StartDir'', VStr (lit ''\"/games/foo\"'')),
             (lit ''LaunchOptions'', VStr []),
             (lit ''IsHidden'', VInt 0),
             (lit ''AllowDesktopConfig'', VInt 1),
             (lit ''OpenVR'', VInt 0),
             (lit ''Devkit'', VInt 0),
             (lit ''DevkitGameID'', VStr []),
             (lit ''LastPlayTime'', VInt 0),
             (lit ''tags'', VDict [])]))"
proof -
  let ?add = "add_non_steam_game sample_env [lit ''userdata''] (lit ''/games/foo/run.bin'')
          (lit ''Foo Game'') (lit ''42'') [] (sample_world [1, 2, 3])"
  let ?r = "[(lit ''status'', VStr (lit ''success'')), (lit ''app_id'', VStr (lit ''2792489181''))]"
  have nofault: "\<forall>op. op \<noteq> Copy2 (shortcuts_file_of [lit ''userdata''] (lit ''42''))
        (backup_path_of sample_env (shortcuts_file_of [lit ''userdata''] (lit ''42''))) \<longrightarrow>
      fs_fault sample_env op = None" by (simp add: sample_env_def)
  have wr: "writer sample_env
        [(lit ''shortcuts'',
          VDict [(lit ''0'',
                  VDict (make_entry (lit ''2792489181'') (lit ''Foo Game'')
                           (lit ''/games/foo/run.bin'')
                           (parent_str sample_env (lit ''/games/foo/run.bin'')) []))])]
        = ([(DEBUG, DumpTypeError TypeError)],
           fst (sample_dump [(lit ''shortcuts'',
            VDict [(lit ''0'',
                    VDict (make_entry (lit ''2792489181'') (lit ''Foo Game'')
                             (lit ''/games/foo/run.bin'')
                             (parent_str sample_env (lit ''/games/foo/run.bin'')) []))])]), None)"
    by (simp only: sample_add_facts(8))
  from add_non_steam_game_undecodable[OF sample_add_facts(1) sample_add_facts(2)
      generate_appid_scenario sample_add_facts(4) sample_world_file sample_add_facts(5)
      sample_add_facts(6) nofault sample_add_facts(7) wr]
  have res: "snd ?add = Inr ?r" by simp
  then have pair: "?add = (fst ?add, Inr ?r)" by (metis prod.collapse)
  from add_non_steam_game_entry_fields[OF pair]
  obtain exe app_id doc inner idx logs bs where
    xu: "expanduser sample_env (lit ''/games/foo/run.bin'') = Inr exe"
    and id: "generate_appid (lit ''Foo Game'') exe = Inr app_id"
    and w: "writer sample_env doc = (logs, bs, None)"
    and f: "files (fst ?add) (shortcuts_file_of [lit ''userdata''] (lit ''42'')) = Some bs"
    and g: "dict_get doc (lit ''shortcuts'') (VDict []) = VDict inner"
    and m: "map_of inner idx =
         Some (VDict
           [(lit ''appid'', VStr app_id),
            (lit ''appname'', VStr (lit ''Foo Game'')),
            (lit ''exe'', VStr ([34] @ exe @ [34])),
            (lit ''StartDir'', VStr ([34] @ parent_str sample_env exe @ [34])),
            (lit ''LaunchOptions'', VStr []),
            (lit ''IsHidden'', VInt 0),
            (lit ''AllowDesktopConfig'', VInt 1),
            (lit ''OpenVR'', VInt 0),
            (lit ''Devkit'', VInt 0),
            (lit ''DevkitGameID'', VStr []),
            (lit ''LastPlayTime'', VInt 0),
            (lit ''tags'', VDict [])])"
    by blast
  from xu have exe: "exe = lit ''/games/foo/run.bin''" by (simp add: sample_add_facts(1))
  from id have app: "app_id = lit ''2792489181''"
    unfolding exe by (simp add: generate_appid_scenario)
  from w have bs: "bs = fst (sample_dump doc)" by (simp add: sample_add_facts(8))
  have q: "[34] @ lit ''/games/foo/run.bin'' @ [34] = lit ''\"/games/foo/run.bin\"''"
      "[34] @ lit ''/games/foo'' @ [34] = lit ''\"/games/foo\"''"
    by (simp_all add: lit_def)
  from f have f': "files (fst ?add) sample_file = Some (fst (sample_dump doc))"
    unfolding bs sample_file_def .
  from m have m': "map_of inner idx =
          Some (VDict
            [(lit ''appid'', VStr (lit ''2792489181'')),
             (lit ''appname'', VStr (lit ''Foo Game'')),
             (lit ''exe'', VStr (lit ''\"/games/foo/run.bin\"'')),
             (lit ''StartDir'', VStr (lit ''\"/games/foo\"'')),
             (lit ''LaunchOptions'', VStr []),
             (lit ''IsHidden'', VInt 0),
             (lit ''AllowDesktopConfig'', VInt 1),
             (lit ''OpenVR'', VInt 0),
             (lit ''Devkit'', VInt 0),
             (lit ''DevkitGameID'', VStr []),
             (lit ''LastPlayTime'', VInt 0),
             (lit ''tags'', VDict [])])"
    unfolding exe app sample_add_facts(3) q .
  from res f' g m' show ?thesis by blast
qed

end
